theory Spec2Isabelle
  imports Main "HOL-Library.AList" "HOL-Library.Sublist" "HOL-Library.Char_ord"
    "HOL-Library.List_Lexorder"
begin

section \<open>Python values used by app.py\<close>

text \<open>
  Python's \<open>str(int)\<close>, used by the f-string in \<open>Proposal.id\<close> and by
  \<open>gen_node_ids\<close>: decimal digits, most significant first, with a leading minus sign
  for a negative number.
\<close>

definition digit_char :: "nat \<Rightarrow> char" where
  "digit_char d = ''0123456789'' ! d"

fun str_nat :: "nat \<Rightarrow> string" where
  "str_nat n = (if n < 10 then [digit_char n] else str_nat (n div 10) @ [digit_char (n mod 10)])"

definition str_int :: "int \<Rightarrow> string" where
  "str_int i = (if i < 0 then ''-'' @ str_nat (nat (- i)) else str_nat (nat i))"

text \<open>
  A dict with string keys is an association list in insertion order.
  \<open>d.get(k, default)\<close> reads it; \<^const>\<open>AList.update\<close> is \<open>d[k] = v\<close>: it replaces
  the value of a key that is present, in place, and appends a new key at the end.
\<close>

definition dict_get :: "('k \<times> 'v) list \<Rightarrow> 'k \<Rightarrow> 'v \<Rightarrow> 'v" where
  "dict_get d k dflt = (case map_of d k of None \<Rightarrow> dflt | Some v \<Rightarrow> v)"

text \<open>The slice \<open>xs[:q]\<close>; a negative \<open>q\<close> counts from the end of the list.\<close>

definition slice_to :: "'a list \<Rightarrow> int \<Rightarrow> 'a list" where
  "slice_to xs q = (if q < 0 then take (nat (int (length xs) + q)) xs else take (nat q) xs)"

text \<open>\<open>s.startswith(p)\<close>.\<close>

definition startswith :: "string \<Rightarrow> string \<Rightarrow> bool" where
  "startswith s p = (take (length p) s = p)"

section \<open>Helper and model classes\<close>

text \<open>
  \<open>sign\<close> formats the first six hexadecimal digits of a SHA-256 digest. The digest
  function belongs to Python's hashlib, so it is a parameter \<open>sha256_hex\<close> here.
\<close>

definition sign :: "(string \<Rightarrow> string) \<Rightarrow> string \<Rightarrow> string \<Rightarrow> string" where
  "sign sha256_hex node proposal_id =
     (let h = sha256_hex (node @ ''|'' @ proposal_id)
      in ''SIG('' @ node @ '':'' @ take 6 h @ '')'')"

record Proposal =
  block_id :: string
  parent_id :: string
  view :: int
  proposer :: string

definition Proposal_id :: "Proposal \<Rightarrow> string" where
  "Proposal_id p = block_id p @ ''@v'' @ str_int (view p)"

record Vote =
  voter :: string
  proposal :: Proposal
  signature :: string

text \<open>A QC is the tuple \<open>(proposal, sorted voters)\<close>; an evidence entry is the tuple
  \<open>(voter, id of the older proposal, id of the newer proposal)\<close>.\<close>

type_synonym QC = "Proposal \<times> string list"

type_synonym Evidence = "string \<times> string \<times> string"

record NodeState =
  node_id :: string
  received_votes :: "(string \<times> Vote list) list"
  evidence :: "Evidence set"
  committed :: "string list"
  highest_qc :: "QC option"

definition NodeState_init :: "string \<Rightarrow> NodeState" where
  "NodeState_init n =
     \<lparr>node_id = n, received_votes = [], evidence = {}, committed = [], highest_qc = None\<rparr>"

subsection \<open>record_vote\<close>

text \<open>The condition of the inner loop of \<open>record_vote\<close>: \<open>ov\<close> is a stored vote,
  \<open>vote\<close> the one being ingested.\<close>

definition conflicts :: "Vote \<Rightarrow> Vote \<Rightarrow> bool" where
  "conflicts ov vote =
     (voter ov = voter vote \<and>
      view (proposal ov) = view (proposal vote) \<and>
      proposer (proposal ov) = proposer (proposal vote) \<and>
      block_id (proposal ov) \<noteq> block_id (proposal vote))"

text \<open>\<open>for ov in votes: if ...: self.evidence.add(...)\<close>\<close>

fun scan_votes :: "Vote \<Rightarrow> Vote list \<Rightarrow> Evidence set \<Rightarrow> Evidence set" where
  "scan_votes vote [] ev = ev"
| "scan_votes vote (ov # ovs) ev =
     scan_votes vote ovs
       (if conflicts ov vote
        then insert (voter vote, Proposal_id (proposal ov), Proposal_id (proposal vote)) ev
        else ev)"

text \<open>\<open>for other_pid, votes in self.received_votes.items(): if other_pid == pid: continue ...\<close>\<close>

fun scan_items :: "string \<Rightarrow> Vote \<Rightarrow> (string \<times> Vote list) list \<Rightarrow> Evidence set \<Rightarrow> Evidence set" where
  "scan_items pid vote [] ev = ev"
| "scan_items pid vote ((other_pid, votes) # items) ev =
     scan_items pid vote items (if other_pid = pid then ev else scan_votes vote votes ev)"

text \<open>\<open>self.received_votes[pid].append(vote)\<close> on a \<open>defaultdict(list)\<close>: a missing
  key starts from the empty list and is inserted last.\<close>

definition store_vote :: "(string \<times> Vote list) list \<Rightarrow> string \<Rightarrow> Vote \<Rightarrow> (string \<times> Vote list) list" where
  "store_vote rv pid vote = AList.update pid (dict_get rv pid [] @ [vote]) rv"

definition record_vote :: "NodeState \<Rightarrow> Vote \<Rightarrow> NodeState" where
  "record_vote s vote =
     (let pid = Proposal_id (proposal vote);
          rv = store_vote (received_votes s) pid vote
      in s\<lparr>received_votes := rv, evidence := scan_items pid vote rv (evidence s)\<rparr>)"

subsection \<open>try_form_qc\<close>

definition try_form_qc :: "NodeState \<Rightarrow> Proposal \<Rightarrow> int \<Rightarrow> NodeState \<times> QC option" where
  "try_form_qc s p QUORUM =
     (let pid = Proposal_id p;
          votes = dict_get (received_votes s) pid []
      in if int (length votes) \<ge> QUORUM then
           (let qc = (p, sort (map voter (slice_to votes QUORUM)))
            in ((case highest_qc s of
                   None \<Rightarrow> s\<lparr>highest_qc := Some qc\<rparr>
                 | Some h \<Rightarrow> if view p > view (fst h) then s\<lparr>highest_qc := Some qc\<rparr> else s),
                Some qc))
         else (s, None))"

subsection \<open>apply_qc_commit\<close>

definition apply_qc_commit :: "NodeState \<Rightarrow> QC \<Rightarrow> NodeState" where
  "apply_qc_commit s qc =
     (let p = fst qc; b = block_id p
      in if b \<notin> set (committed s) then s\<lparr>committed := committed s @ [b]\<rparr> else s)"

subsection \<open>Histories of one node\<close>

text \<open>A node is only ever changed by calls of its three methods. A history is a list of
  such calls, applied from left to right.\<close>

datatype Call = RecordVote Vote | TryFormQC Proposal int | ApplyQCCommit QC

fun call :: "NodeState \<Rightarrow> Call \<Rightarrow> NodeState" where
  "call s (RecordVote v) = record_vote s v"
| "call s (TryFormQC p q) = fst (try_form_qc s p q)"
| "call s (ApplyQCCommit qc) = apply_qc_commit s qc"

definition calls :: "NodeState \<Rightarrow> Call list \<Rightarrow> NodeState" where
  "calls s cs = foldl call s cs"

text \<open>The votes a history ingests, in order.\<close>

fun votes_of :: "Call list \<Rightarrow> Vote list" where
  "votes_of [] = []"
| "votes_of (RecordVote v # cs) = v # votes_of cs"
| "votes_of (TryFormQC p q # cs) = votes_of cs"
| "votes_of (ApplyQCCommit qc # cs) = votes_of cs"

text \<open>Two notions for stating what \<open>record_vote\<close> does: the votes held in the vote
  dict, each with the key it is filed under, and the evidence entry that the conflict
  scan adds for a stored vote \<open>ov\<close> and the ingested vote.\<close>

definition stored :: "(string \<times> Vote list) list \<Rightarrow> (string \<times> Vote) set" where
  "stored rv = set (concat (map (\<lambda>(k, vs). map (Pair k) vs) rv))"

definition accuse :: "Vote \<Rightarrow> Vote \<Rightarrow> Evidence" where
  "accuse ov vote = (voter vote, Proposal_id (proposal ov), Proposal_id (proposal vote))"

section \<open>UI and simulation logic: the Run Simulation handler\<close>

text \<open>
  The handler is modelled with its inputs as parameters: the digest function, the
  sliders' values \<open>N\<close> and \<open>F\<close>, and the two select boxes. Rendering (the graph, the
  pacing of \<open>step_pause\<close>, the balloons) is left out. The calls of \<open>log\<close> are kept as
  the list of what was written to the log box, oldest first: the method of the box that
  the \<open>kind\<close> selects, and the message. A message built by an f-string is a constructor
  holding the values the f-string formats; a constant ASCII message is the text itself.
\<close>

datatype PyError = ZeroDivisionError

datatype Box = Write | Success | Warning | Error

datatype Message =
    Text string
  | LeaderIs int string
    \<comment> \<open>View \{view\}: leader is \{current_leader\}\<close>
  | Sends string string "string list" string "string list"
    \<comment> \<open>\{current_leader\} (leader) sends \{propA.id()\} to \{targetsA\} and \{propB.id()\} to \{targetsB\}\<close>
  | Voted string string
    \<comment> \<open>\{v\} voted for \{prop.id()\}\<close>
  | NoQCFormed
    \<comment> \<open>No QC formed for X or Y (neither side reached quorum). Safety preserved.\<close>
  | UnexpectedQC "QC list"
    \<comment> \<open>Unexpected QC formed: \{qcs\}\<close>
  | EvidenceEntries "Evidence set"
    \<comment> \<open>one line " - \{e[0]\} signed conflicting proposals: \{e[1]\} vs \{e[2]\}" for each
        entry of the set, in the set's iteration order\<close>
  | ViewChange int string
    \<comment> \<open>Triggering view-change -> new view \{view\}, new leader \{new_leader\}\<close>
  | ProposesSafe string string
    \<comment> \<open>\{new_leader\} proposes safe block \{safe_prop.id()\}\<close>
  | QCFormedCommit string string
    \<comment> \<open>QC formed for \{safe_prop.id()\}. All honest nodes commit \{safe_prop.block_id\}.\<close>
  | CommittedOf string "string list"
    \<comment> \<open>\{nid\}: \{commits\}\<close>

type_synonym Log = "(Box \<times> Message) list"

type_synonym Nodes = "(string \<times> NodeState) list"

definition log :: "Log \<Rightarrow> Message \<Rightarrow> string \<Rightarrow> Log" where
  "log lg msg kind =
     lg @ [(if kind = ''info'' then Write
            else if kind = ''success'' then Success
            else if kind = ''warning'' then Warning
            else if kind = ''error'' then Error
            else Write, msg)]"

definition node_name :: "nat \<Rightarrow> string" where
  "node_name i = (if i < 26 then [''ABCDEFGHIJKLMNOPQRSTUVWXYZ'' ! i] else ''Node'' @ str_nat i)"

definition gen_node_ids :: "nat \<Rightarrow> string list" where
  "gen_node_ids n = map node_name [0..<n]"

text \<open>\<open>xs[k % len(xs)]\<close>: the remainder by zero raises.\<close>

definition index_mod :: "'a list \<Rightarrow> nat \<Rightarrow> PyError + 'a" where
  "index_mod xs k = (if length xs = 0 then Inl ZeroDivisionError else Inr (xs ! (k mod length xs)))"

text \<open>\<open>{nid: NodeState(nid) for nid in NODE_IDS}\<close>\<close>

definition init_nodes :: "string list \<Rightarrow> Nodes" where
  "init_nodes ids = foldl (\<lambda>d nid. AList.update nid (NodeState_init nid) d) [] ids"

text \<open>\<open>for nd in nodes.values(): nd.record_vote(vote)\<close>\<close>

definition deliver :: "Nodes \<Rightarrow> Vote \<Rightarrow> Nodes" where
  "deliver nodes vote = map (\<lambda>(nid, nd). (nid, record_vote nd vote)) nodes"

text \<open>The voting loop (the same for the targets of X, the targets of Y and the voters
  of Z): each voter signs one vote, which is delivered to every node.\<close>

fun cast_votes ::
  "(string \<Rightarrow> string) \<Rightarrow> Proposal \<Rightarrow> string list \<Rightarrow> Vote list \<times> Nodes \<times> Log \<Rightarrow> Vote list \<times> Nodes \<times> Log"
where
  "cast_votes sha p [] st = st"
| "cast_votes sha p (v # vs) (votes, nodes, lg) =
     (let sig = sign sha v (Proposal_id p);
          vote = \<lparr>voter = v, proposal = p, signature = sig\<rparr>
      in cast_votes sha p vs
           (votes @ [vote], deliver nodes vote, log lg (Voted v (Proposal_id p)) ''info''))"

text \<open>\<open>if qc: qcs.append(qc)\<close>: a QC is a pair, which is true; \<open>None\<close> is false.\<close>

definition append_if :: "QC list \<Rightarrow> QC option \<Rightarrow> QC list" where
  "append_if qcs qc = (case qc of None \<Rightarrow> qcs | Some q \<Rightarrow> qcs @ [q])"

text \<open>"Try to form QC globally": every node is asked for X, then for Y.\<close>

fun poll_qcs2 :: "Proposal \<Rightarrow> Proposal \<Rightarrow> int \<Rightarrow> Nodes \<Rightarrow> Nodes \<times> QC list \<Rightarrow> Nodes \<times> QC list" where
  "poll_qcs2 propA propB QUORUM [] acc = acc"
| "poll_qcs2 propA propB QUORUM ((nid, nd) # rest) (done, qcs) =
     (let (nd1, qcA) = try_form_qc nd propA QUORUM;
          (nd2, qcB) = try_form_qc nd1 propB QUORUM
      in poll_qcs2 propA propB QUORUM rest
           (done @ [(nid, nd2)], append_if (append_if qcs qcA) qcB))"

text \<open>"Form QC for Z".\<close>

fun poll_qcs :: "Proposal \<Rightarrow> int \<Rightarrow> Nodes \<Rightarrow> Nodes \<times> QC list \<Rightarrow> Nodes \<times> QC list" where
  "poll_qcs prop QUORUM [] acc = acc"
| "poll_qcs prop QUORUM ((nid, nd) # rest) (done, qcs) =
     (let (nd1, qc) = try_form_qc nd prop QUORUM
      in poll_qcs prop QUORUM rest (done @ [(nid, nd1)], append_if qcs qc))"

text \<open>"collect equivocation evidence"\<close>

definition collect_evidence :: "Nodes \<Rightarrow> Evidence set" where
  "collect_evidence nodes = foldl (\<lambda>ev (nid, nd). ev \<union> evidence nd) {} nodes"

text \<open>\<open>for nd in nodes.values(): nd.apply_qc_commit(qc)\<close>\<close>

definition commit_all :: "Nodes \<Rightarrow> QC \<Rightarrow> Nodes" where
  "commit_all nodes qc = map (\<lambda>(nid, nd). (nid, apply_qc_commit nd qc)) nodes"

text \<open>
  The branch \<open>attack_type.startswith("Equivocation")\<close>, in two parts. The first is the
  round of the equivocating leader: the votes of the two target groups, the attempt to
  form a QC for \<open>propA\<close> and \<open>propB\<close> at every node, and the collection of evidence. The
  handler calls it with \<open>targetsA = NODE_IDS[:half]\<close> and \<open>targetsB = NODE_IDS[half:]\<close>.
\<close>

definition attack_round ::
  "(string \<Rightarrow> string) \<Rightarrow> Proposal \<Rightarrow> Proposal \<Rightarrow> string list \<Rightarrow> string list \<Rightarrow> int \<Rightarrow> Nodes \<Rightarrow> Log
     \<Rightarrow> Nodes \<times> QC list \<times> Evidence set \<times> Log"
where
  "attack_round sha propA propB targetsA targetsB QUORUM nodes0 lg1 =
     (let (votesA, nodes1, lg2) = cast_votes sha propA targetsA ([], nodes0, lg1);
          (votes, nodes2, lg3) = cast_votes sha propB targetsB (votesA, nodes1, lg2);
          (nodes3, qcs) = poll_qcs2 propA propB QUORUM nodes2 ([], []);
          lg4 = (if qcs = [] then log lg3 NoQCFormed ''success''
                 else log lg3 (UnexpectedQC qcs) ''warning'');
          ev = collect_evidence nodes3;
          lg5 = (if ev \<noteq> {}
                 then log (log lg4 (Text ''Equivocation evidence detected across nodes:'') ''warning'')
                        (EvidenceEntries ev) ''warning''
                 else log lg4 (Text ''No equivocation evidence found.'') ''info'')
      in (nodes3, qcs, ev, lg5))"

text \<open>The second part: the new leader's block Z, everybody's vote for it, the QC and
  the commit, and the summary of the committed lists.\<close>

definition safe_round ::
  "(string \<Rightarrow> string) \<Rightarrow> string list \<Rightarrow> int \<Rightarrow> Nodes \<Rightarrow> int \<Rightarrow> string \<Rightarrow> Log \<Rightarrow> Nodes \<times> Log"
where
  "safe_round sha NODE_IDS QUORUM nodes3 view1 new_leader lg5 =
     (let lg6 = log lg5 (ViewChange view1 new_leader) ''info'';
          safe_prop = \<lparr>block_id = ''Z'', parent_id = ''GENESIS'', view = view1, proposer = new_leader\<rparr>;
          lg7 = log lg6 (ProposesSafe new_leader (Proposal_id safe_prop)) ''info'';
          (votes_z, nodes4, lg8) = cast_votes sha safe_prop NODE_IDS ([], nodes3, lg7);
          (nodes5, qcs_z) = poll_qcs safe_prop QUORUM nodes4 ([], []);
          (nodes6, lg9) =
             (case qcs_z of
                qc # _ \<Rightarrow> (commit_all nodes5 qc,
                          log lg8 (QCFormedCommit (Proposal_id safe_prop) (block_id safe_prop)) ''success'')
              | [] \<Rightarrow> (nodes5, log lg8 (Text ''No QC formed for Z (unexpected).'') ''error''));
          lg10 = log lg9 (Text ''Final committed blocks per node (sample):'') ''info'';
          lg11 = foldl (\<lambda>lg (nid, nd). log lg (CommittedOf nid (committed nd)) ''info'') lg10 nodes6
      in (nodes6, lg11))"

definition equivocation_demo ::
  "(string \<Rightarrow> string) \<Rightarrow> string list \<Rightarrow> int \<Rightarrow> Nodes \<Rightarrow> int \<Rightarrow> nat \<Rightarrow> string \<Rightarrow> Log
     \<Rightarrow> PyError + Nodes \<times> Log"
where
  "equivocation_demo sha NODE_IDS QUORUM nodes0 view0 leader_index0 current_leader lg0 =
     (let propA = \<lparr>block_id = ''X'', parent_id = ''GENESIS'', view = view0, proposer = current_leader\<rparr>;
          propB = \<lparr>block_id = ''Y'', parent_id = ''GENESIS'', view = view0, proposer = current_leader\<rparr>;
          half = length NODE_IDS div 2;
          targetsA = take half NODE_IDS;
          targetsB = drop half NODE_IDS;
          lg1 = log lg0 (Sends current_leader (Proposal_id propA) targetsA (Proposal_id propB) targetsB) ''info'';
          (nodes3, qcs, ev, lg5) = attack_round sha propA propB targetsA targetsB QUORUM nodes0 lg1;
          view1 = view0 + 1;
          leader_index1 = leader_index0 + 1
      in case index_mod NODE_IDS leader_index1 of
           Inl e \<Rightarrow> Inl e
         | Inr new_leader \<Rightarrow> Inr (safe_round sha NODE_IDS QUORUM nodes3 view1 new_leader lg5))"

record Outcome =
  final_nodes :: Nodes
  logged :: Log

text \<open>The body of \<open>if st.button("Run Simulation")\<close>.\<close>

definition Run_Simulation ::
  "(string \<Rightarrow> string) \<Rightarrow> nat \<Rightarrow> nat \<Rightarrow> string \<Rightarrow> string \<Rightarrow> PyError + Outcome"
where
  "Run_Simulation sha N F faulty_leader attack_type =
     (let NODE_IDS = gen_node_ids N;
          QUORUM = 2 * int F + 1;
          nodes0 = init_nodes NODE_IDS;
          leader_index = 0;
          view0 = 1
      in case (if faulty_leader \<noteq> ''None'' then Inr faulty_leader
               else index_mod NODE_IDS leader_index) of
           Inl e \<Rightarrow> Inl e
         | Inr current_leader \<Rightarrow>
            (let lg0 = log [] (LeaderIs view0 current_leader) ''info''
             in if startswith attack_type ''Equivocation'' then
                  (case equivocation_demo sha NODE_IDS QUORUM nodes0 view0 leader_index current_leader lg0 of
                     Inl e \<Rightarrow> Inl e
                   | Inr (nodes1, lg1) \<Rightarrow>
                       Inr \<lparr>final_nodes = nodes1, logged = log lg1 (Text ''Simulation complete.'') ''info''\<rparr>)
                else if startswith attack_type ''Withhold QC'' then
                  Inr \<lparr>final_nodes = nodes0,
                       logged = log (log lg0 (Text ''Withhold QC scenario not fully implemented in UI version yet. Please try Equivocation demo.'') ''info'')
                                  (Text ''Simulation complete.'') ''info''\<rparr>
                else
                  Inr \<lparr>final_nodes = nodes0,
                       logged = log (log lg0 (Text ''Other attack types are placeholders. Equivocation demo is the interactive part.'') ''info'')
                                  (Text ''Simulation complete.'') ''info''\<rparr>))"

section \<open>Properties of the node operations\<close>

declare str_nat.simps [simp del]

subsection \<open>What each method leaves alone\<close>

lemma record_vote_frame:
  "committed (record_vote s v) = committed s"
  "highest_qc (record_vote s v) = highest_qc s"
  "node_id (record_vote s v) = node_id s"
  by (simp_all add: record_vote_def Let_def)

lemma try_form_qc_frame:
  "received_votes (fst (try_form_qc s p q)) = received_votes s"
  "evidence (fst (try_form_qc s p q)) = evidence s"
  "committed (fst (try_form_qc s p q)) = committed s"
  "node_id (fst (try_form_qc s p q)) = node_id s"
  by (simp_all add: try_form_qc_def Let_def split: option.splits)

lemma apply_qc_commit_frame:
  "received_votes (apply_qc_commit s qc) = received_votes s"
  "evidence (apply_qc_commit s qc) = evidence s"
  "highest_qc (apply_qc_commit s qc) = highest_qc s"
  "node_id (apply_qc_commit s qc) = node_id s"
  by (simp_all add: apply_qc_commit_def Let_def)

lemma calls_Nil: "calls s [] = s"
  by (simp add: calls_def)

lemma calls_Cons: "calls s (c # cs) = calls (call s c) cs"
  by (simp add: calls_def)

lemma calls_append: "calls s (cs @ ds) = calls (calls s cs) ds"
  by (simp add: calls_def)

subsection \<open>Commit\<close>

lemma apply_qc_commit_prefix: "prefix (committed s) (committed (apply_qc_commit s qc))"
  by (simp add: apply_qc_commit_def Let_def)

lemma apply_qc_commit_distinct:
  "distinct (committed s) \<Longrightarrow> distinct (committed (apply_qc_commit s qc))"
  by (simp add: apply_qc_commit_def Let_def)

lemma apply_qc_commit_twice:
  "apply_qc_commit (apply_qc_commit s qc) qc = apply_qc_commit s qc"
  by (simp add: apply_qc_commit_def Let_def)

lemma call_distinct: "distinct (committed s) \<Longrightarrow> distinct (committed (call s c))"
  by (cases c) (simp_all add: record_vote_frame try_form_qc_frame apply_qc_commit_distinct)

lemma calls_distinct: "distinct (committed s) \<Longrightarrow> distinct (committed (calls s cs))"
  unfolding calls_def by (induction cs arbitrary: s) (simp_all add: call_distinct)

text \<open>
  C6. Commit idempotence: applying \<open>apply_qc_commit\<close> with the same QC a second time
  leaves the node (and so its committed list) as it was after the first application;
  and after any history of a node created by \<open>NodeState(nid)\<close>, no block identifier
  occurs twice in its committed list.
\<close>

theorem commit_idempotent:
  "apply_qc_commit (apply_qc_commit s qc) qc = apply_qc_commit s qc \<and>
   committed (apply_qc_commit (apply_qc_commit s qc) qc) = committed (apply_qc_commit s qc) \<and>
   distinct (committed (calls (NodeState_init n) cs))"
proof -
  have "distinct (committed (NodeState_init n))"
    by (simp add: NodeState_init_def)
  then have "distinct (committed (calls (NodeState_init n) cs))"
    by (rule calls_distinct)
  then show ?thesis
    by (simp add: apply_qc_commit_twice)
qed

theorem commit_idempotent_witness:
  "committed (apply_qc_commit (apply_qc_commit (NodeState_init ''A'')
       (\<lparr>block_id = ''Z'', parent_id = ''GENESIS'', view = 2, proposer = ''B''\<rparr>, [''A'', ''B'', ''C'']))
       (\<lparr>block_id = ''Z'', parent_id = ''GENESIS'', view = 2, proposer = ''B''\<rparr>, [''A'', ''B'', ''C''])) = [''Z''] \<and>
   distinct (committed (calls (NodeState_init ''A'')
       [ApplyQCCommit (\<lparr>block_id = ''Z'', parent_id = ''GENESIS'', view = 2, proposer = ''B''\<rparr>, [''A'', ''B'', ''C'']),
        ApplyQCCommit (\<lparr>block_id = ''Z'', parent_id = ''GENESIS'', view = 2, proposer = ''B''\<rparr>, [''A'', ''B'', ''C''])]))"
  using commit_idempotent [of "NodeState_init ''A''"
      "(\<lparr>block_id = ''Z'', parent_id = ''GENESIS'', view = 2, proposer = ''B''\<rparr>, [''A'', ''B'', ''C''])"
      "''A''"
      "[ApplyQCCommit (\<lparr>block_id = ''Z'', parent_id = ''GENESIS'', view = 2, proposer = ''B''\<rparr>, [''A'', ''B'', ''C'']),
        ApplyQCCommit (\<lparr>block_id = ''Z'', parent_id = ''GENESIS'', view = 2, proposer = ''B''\<rparr>, [''A'', ''B'', ''C''])]"]
  by (simp add: apply_qc_commit_def NodeState_init_def Let_def)

subsection \<open>The highest QC\<close>

lemma try_form_qc_highest:
  "highest_qc s = Some h \<Longrightarrow>
   highest_qc (fst (try_form_qc s p q)) = Some h \<or>
   (\<exists>vs. highest_qc (fst (try_form_qc s p q)) = Some (p, vs) \<and> view (fst h) < view p)"
  by (simp add: try_form_qc_def Let_def)

lemma try_form_qc_keeps:
  "highest_qc s = Some h \<Longrightarrow> view p \<le> view (fst h) \<Longrightarrow>
   highest_qc (fst (try_form_qc s p q)) = Some h"
  by (simp add: try_form_qc_def Let_def)

lemma call_highest:
  assumes "highest_qc s = Some h"
  shows "\<exists>h'. highest_qc (call s c) = Some h' \<and> (h' = h \<or> view (fst h) < view (fst h'))"
proof (cases c)
  case (TryFormQC p q)
  then show ?thesis
    using try_form_qc_highest [OF assms, of p q] by (cases h) auto
qed (simp_all add: assms record_vote_frame apply_qc_commit_frame)

lemma calls_highest:
  "highest_qc s = Some h \<Longrightarrow>
   \<exists>h'. highest_qc (calls s cs) = Some h' \<and> (h' = h \<or> view (fst h) < view (fst h'))"
proof (induction cs arbitrary: s h)
  case Nil
  then show ?case by (simp add: calls_Nil)
next
  case (Cons c cs)
  from call_highest [OF Cons.prems, of c] obtain h1 where
    h1: "highest_qc (call s c) = Some h1" "h1 = h \<or> view (fst h) < view (fst h1)"
    by blast
  from Cons.IH [OF h1(1)] obtain h2 where
    h2: "highest_qc (calls (call s c) cs) = Some h2" "h2 = h1 \<or> view (fst h1) < view (fst h2)"
    by blast
  from h1(2) h2(2) have "h2 = h \<or> view (fst h) < view (fst h2)"
    by auto
  with h2(1) show ?case
    by (simp add: calls_Cons)
qed

text \<open>
  C7. Strict-view monotonicity of \<open>highest_qc\<close>: once it is set to \<open>h\<close>, a
  \<open>try_form_qc\<close> for a proposal whose view is at most the view of \<open>h\<close> leaves it
  unchanged; any single call, and any history of calls, leaves it either equal to \<open>h\<close>
  or set to a QC of a strictly greater view.
\<close>

theorem highest_qc_monotone:
  assumes "highest_qc s = Some h"
  shows "(view p \<le> view (fst h) \<longrightarrow> highest_qc (fst (try_form_qc s p q)) = Some h) \<and>
         (\<exists>h'. highest_qc (call s c) = Some h' \<and> (h' = h \<or> view (fst h) < view (fst h'))) \<and>
         (\<exists>h'. highest_qc (calls s cs) = Some h' \<and> (h' = h \<or> view (fst h) < view (fst h')))"
  using assms try_form_qc_keeps [of s h p q] call_highest [of s h c] calls_highest [of s h cs]
  by blast

theorem highest_qc_monotone_witness:
  "highest_qc \<lparr>node_id = ''A'',
      received_votes = [(''X@v1'', [\<lparr>voter = ''C'',
          proposal = \<lparr>block_id = ''X'', parent_id = ''GENESIS'', view = 1, proposer = ''A''\<rparr>,
          signature = ''SIG(C:0a1b2c)''\<rparr>])],
      evidence = {}, committed = [],
      highest_qc = Some (\<lparr>block_id = ''Z'', parent_id = ''GENESIS'', view = 2, proposer = ''B''\<rparr>, [''B''])\<rparr>
     = Some (\<lparr>block_id = ''Z'', parent_id = ''GENESIS'', view = 2, proposer = ''B''\<rparr>, [''B'']) \<and>
   snd (try_form_qc \<lparr>node_id = ''A'',
      received_votes = [(''X@v1'', [\<lparr>voter = ''C'',
          proposal = \<lparr>block_id = ''X'', parent_id = ''GENESIS'', view = 1, proposer = ''A''\<rparr>,
          signature = ''SIG(C:0a1b2c)''\<rparr>])],
      evidence = {}, committed = [],
      highest_qc = Some (\<lparr>block_id = ''Z'', parent_id = ''GENESIS'', view = 2, proposer = ''B''\<rparr>, [''B''])\<rparr>
      \<lparr>block_id = ''X'', parent_id = ''GENESIS'', view = 1, proposer = ''A''\<rparr> 1)
     = Some (\<lparr>block_id = ''X'', parent_id = ''GENESIS'', view = 1, proposer = ''A''\<rparr>, [''C'']) \<and>
   highest_qc (fst (try_form_qc \<lparr>node_id = ''A'',
      received_votes = [(''X@v1'', [\<lparr>voter = ''C'',
          proposal = \<lparr>block_id = ''X'', parent_id = ''GENESIS'', view = 1, proposer = ''A''\<rparr>,
          signature = ''SIG(C:0a1b2c)''\<rparr>])],
      evidence = {}, committed = [],
      highest_qc = Some (\<lparr>block_id = ''Z'', parent_id = ''GENESIS'', view = 2, proposer = ''B''\<rparr>, [''B''])\<rparr>
      \<lparr>block_id = ''X'', parent_id = ''GENESIS'', view = 1, proposer = ''A''\<rparr> 1))
     = Some (\<lparr>block_id = ''Z'', parent_id = ''GENESIS'', view = 2, proposer = ''B''\<rparr>, [''B''])"
  using highest_qc_monotone [of
      "\<lparr>node_id = ''A'',
      received_votes = [(''X@v1'', [\<lparr>voter = ''C'',
          proposal = \<lparr>block_id = ''X'', parent_id = ''GENESIS'', view = 1, proposer = ''A''\<rparr>,
          signature = ''SIG(C:0a1b2c)''\<rparr>])],
      evidence = {}, committed = [],
      highest_qc = Some (\<lparr>block_id = ''Z'', parent_id = ''GENESIS'', view = 2, proposer = ''B''\<rparr>, [''B''])\<rparr>"
      "(\<lparr>block_id = ''Z'', parent_id = ''GENESIS'', view = 2, proposer = ''B''\<rparr>, [''B''])"
      "\<lparr>block_id = ''X'', parent_id = ''GENESIS'', view = 1, proposer = ''A''\<rparr>" 1]
  by (simp add: try_form_qc_def dict_get_def Proposal_id_def str_int_def str_nat.simps
      digit_char_def slice_to_def Let_def)


subsection \<open>Vote ingestion and the conflict scan\<close>

lemmas node_eval = calls_def record_vote_def store_vote_def dict_get_def
  Proposal_id_def str_int_def str_nat.simps digit_char_def NodeState_init_def
  conflicts_def Let_def

lemma stored_Nil: "stored [] = {}"
  by (simp add: stored_def)

lemma stored_Cons: "stored ((k, vs) # rv) = Pair k ` set vs \<union> stored rv"
  by (simp add: stored_def)

lemma stored_update:
  "(case map_of rv pid of None \<Rightarrow> x = [] | Some vs \<Rightarrow> x = vs) \<Longrightarrow>
   stored (AList.update pid (x @ [vote]) rv) = insert (pid, vote) (stored rv)"
proof (induction rv)
  case Nil
  then show ?case by (simp add: stored_Nil stored_Cons)
next
  case (Cons a rv)
  obtain k vs where a: "a = (k, vs)" by (cases a)
  show ?case
  proof (cases "k = pid")
    case True
    with Cons.prems a show ?thesis by (auto simp: stored_Cons)
  next
    case False
    with Cons a show ?thesis by (auto simp: stored_Cons)
  qed
qed

lemma stored_store_vote: "stored (store_vote rv pid vote) = insert (pid, vote) (stored rv)"
  unfolding store_vote_def dict_get_def
  by (rule stored_update) (simp split: option.splits)

lemma scan_votes_eq:
  "scan_votes vote ovs ev = ev \<union> {accuse ov vote | ov. ov \<in> set ovs \<and> conflicts ov vote}"
  by (induction ovs arbitrary: ev) (auto simp: accuse_def)

lemma scan_items_eq:
  "scan_items pid vote items ev =
   ev \<union> {accuse ov vote | k ov. (k, ov) \<in> stored items \<and> k \<noteq> pid \<and> conflicts ov vote}"
proof (induction items arbitrary: ev)
  case Nil
  then show ?case by (simp add: stored_Nil)
next
  case (Cons a items)
  obtain k vs where a: "a = (k, vs)" by (cases a)
  show ?case
    unfolding a by (simp add: Cons.IH scan_votes_eq stored_Cons) blast
qed

lemma stored_record_vote:
  "stored (received_votes (record_vote s v)) =
   insert (Proposal_id (proposal v), v) (stored (received_votes s))"
  by (simp add: record_vote_def Let_def stored_store_vote)

lemma evidence_record_vote:
  "evidence (record_vote s v) =
   evidence s \<union> {accuse ov v | k ov.
     (k, ov) \<in> stored (received_votes s) \<and> k \<noteq> Proposal_id (proposal v) \<and> conflicts ov v}"
  by (simp add: record_vote_def Let_def stored_store_vote scan_items_eq) blast

lemma conflicts_sym: "conflicts a b \<Longrightarrow> conflicts b a"
  by (auto simp: conflicts_def)

lemma conflicts_ids: "conflicts a b \<Longrightarrow> Proposal_id (proposal a) \<noteq> Proposal_id (proposal b)"
  by (simp add: conflicts_def Proposal_id_def)

lemma dict_get_store_vote:
  "dict_get (store_vote rv pid v) k [] =
   (if k = pid then dict_get rv pid [] @ [v] else dict_get rv k [])"
  by (simp add: store_vote_def dict_get_def update_conv')

lemma keys_store_vote: "prefix (map fst rv) (map fst (store_vote rv pid v))"
  by (simp add: store_vote_def update_keys)

lemma calls_snoc: "calls s (cs @ [c]) = call (calls s cs) c"
  by (simp add: calls_def)

lemma votes_of_append: "votes_of (cs @ ds) = votes_of cs @ votes_of ds"
  by (induction cs rule: votes_of.induct) simp_all

lemma stored_call:
  "stored (received_votes (call s c)) =
   stored (received_votes s) \<union> (\<lambda>v. (Proposal_id (proposal v), v)) ` set (votes_of [c])"
  by (cases c) (simp_all add: stored_record_vote try_form_qc_frame apply_qc_commit_frame)

lemma stored_calls:
  "stored (received_votes (calls s cs)) =
   stored (received_votes s) \<union> (\<lambda>v. (Proposal_id (proposal v), v)) ` set (votes_of cs)"
proof (induction cs arbitrary: s)
  case Nil
  then show ?case by (simp add: calls_Nil)
next
  case (Cons c cs)
  have "votes_of (c # cs) = votes_of [c] @ votes_of cs"
    using votes_of_append [of "[c]" cs] by simp
  then show ?case
    by (simp add: calls_Cons Cons.IH stored_call Un_assoc image_Un)
qed

lemma evidence_call_mono: "evidence s \<subseteq> evidence (call s c)"
  by (cases c) (auto simp: evidence_record_vote try_form_qc_frame apply_qc_commit_frame)

lemma evidence_calls_mono: "evidence s \<subseteq> evidence (calls s cs)"
proof (induction cs arbitrary: s)
  case Nil
  then show ?case by (simp add: calls_Nil)
next
  case (Cons c cs)
  have "evidence s \<subseteq> evidence (call s c)" by (rule evidence_call_mono)
  also have "\<dots> \<subseteq> evidence (calls (call s c) cs)" by (rule Cons.IH)
  finally show ?case by (simp add: calls_Cons)
qed

lemma evidence_after_both:
  assumes "conflicts a b"
  shows "accuse a b \<in> evidence (calls s (as @ RecordVote a # bs @ RecordVote b # ds))"
proof -
  let ?s1 = "calls s (as @ RecordVote a # bs)"
  have "(Proposal_id (proposal a), a) \<in> stored (received_votes ?s1)"
    by (simp add: stored_calls votes_of_append)
  moreover have "Proposal_id (proposal a) \<noteq> Proposal_id (proposal b)"
    using assms by (rule conflicts_ids)
  ultimately have "accuse a b \<in> evidence (record_vote ?s1 b)"
    using assms by (auto simp: evidence_record_vote)
  then have "accuse a b \<in> evidence (calls (call ?s1 (RecordVote b)) ds)"
    using evidence_calls_mono [of "call ?s1 (RecordVote b)" ds] by auto
  moreover have "calls s (as @ RecordVote a # bs @ RecordVote b # ds) = calls (call ?s1 (RecordVote b)) ds"
    using calls_append [of s "as @ RecordVote a # bs" "RecordVote b # ds"] by (simp add: calls_Cons)
  ultimately show ?thesis by simp
qed

lemma two_in_list:
  assumes "x \<in> set cs" "y \<in> set cs" "x \<noteq> y"
  shows "(\<exists>as bs ds. cs = as @ x # bs @ y # ds) \<or> (\<exists>as bs ds. cs = as @ y # bs @ x # ds)"
proof -
  from assms(1) obtain as rest where cs: "cs = as @ x # rest"
    by (auto dest: split_list)
  from assms(2,3) cs have "y \<in> set as \<or> y \<in> set rest" by auto
  then show ?thesis
  proof
    assume "y \<in> set as"
    then obtain as1 as2 where "as = as1 @ y # as2" by (auto dest: split_list)
    with cs have "cs = as1 @ y # as2 @ x # rest" by simp
    then show ?thesis by blast
  next
    assume "y \<in> set rest"
    then obtain r1 r2 where "rest = r1 @ y # r2" by (auto dest: split_list)
    with cs have "cs = as @ x # r1 @ y # r2" by simp
    then show ?thesis by blast
  qed
qed


lemma evidence_init: "evidence (NodeState_init n) = {}" "received_votes (NodeState_init n) = []"
  by (simp_all add: NodeState_init_def)

lemma evidence_provenance:
  "e \<in> evidence (calls (NodeState_init n) cs) \<Longrightarrow>
   \<exists>i j. i < j \<and> j < length (votes_of cs) \<and>
         conflicts (votes_of cs ! i) (votes_of cs ! j) \<and>
         e = accuse (votes_of cs ! i) (votes_of cs ! j)"
proof (induction cs arbitrary: e rule: rev_induct)
  case Nil
  then show ?case by (simp add: calls_Nil evidence_init)
next
  case (snoc c cs)
  let ?s = "calls (NodeState_init n) cs"
  let ?vs = "votes_of cs"
  have old: "\<exists>i j. i < j \<and> j < length (votes_of (cs @ [c])) \<and>
         conflicts (votes_of (cs @ [c]) ! i) (votes_of (cs @ [c]) ! j) \<and>
         e = accuse (votes_of (cs @ [c]) ! i) (votes_of (cs @ [c]) ! j)"
    if "e \<in> evidence ?s"
  proof -
    from snoc.IH [OF that] obtain i j where
      ij: "i < j" "j < length ?vs" "conflicts (?vs ! i) (?vs ! j)" "e = accuse (?vs ! i) (?vs ! j)"
      by blast
    then have "(?vs @ votes_of [c]) ! i = ?vs ! i" "(?vs @ votes_of [c]) ! j = ?vs ! j"
      by (simp_all add: nth_append)
    with ij have "i < j \<and> j < length (votes_of (cs @ [c])) \<and>
         conflicts (votes_of (cs @ [c]) ! i) (votes_of (cs @ [c]) ! j) \<and>
         e = accuse (votes_of (cs @ [c]) ! i) (votes_of (cs @ [c]) ! j)"
      by (simp add: votes_of_append)
    then show ?thesis by blast
  qed
  show ?case
  proof (cases c)
    case (RecordVote v)
    from snoc.prems have "e \<in> evidence (record_vote ?s v)"
      by (simp add: calls_snoc RecordVote)
    then consider "e \<in> evidence ?s"
      | k ov where "(k, ov) \<in> stored (received_votes ?s)" "conflicts ov v" "e = accuse ov v"
      by (auto simp: evidence_record_vote)
    then show ?thesis
    proof cases
      case 1
      then show ?thesis by (rule old)
    next
      case 2
      then have "ov \<in> set ?vs"
        by (auto simp: stored_calls evidence_init stored_Nil)
      then obtain i where i: "i < length ?vs" "?vs ! i = ov"
        by (auto simp: in_set_conv_nth)
      have "votes_of (cs @ [c]) = ?vs @ [v]"
        by (simp add: votes_of_append RecordVote)
      with i 2 have "i < length ?vs \<and> length ?vs < length (votes_of (cs @ [c])) \<and>
         conflicts (votes_of (cs @ [c]) ! i) (votes_of (cs @ [c]) ! length ?vs) \<and>
         e = accuse (votes_of (cs @ [c]) ! i) (votes_of (cs @ [c]) ! length ?vs)"
        by (simp add: nth_append)
      then show ?thesis by blast
    qed
  next
    case (TryFormQC p q)
    with snoc.prems have "e \<in> evidence ?s"
      by (simp add: calls_snoc try_form_qc_frame)
    then show ?thesis by (rule old)
  next
    case (ApplyQCCommit qc)
    with snoc.prems have "e \<in> evidence ?s"
      by (simp add: calls_snoc apply_qc_commit_frame)
    then show ?thesis by (rule old)
  qed
qed


lemma no_swapped_pair:
  assumes "distinct (map (\<lambda>v. (voter v, Proposal_id (proposal v))) (votes_of cs))"
  shows "\<not> ((a, p, q) \<in> evidence (calls (NodeState_init n) cs) \<and>
            (a, q, p) \<in> evidence (calls (NodeState_init n) cs))"
proof
  let ?vs = "votes_of cs"
  let ?key = "\<lambda>v. (voter v, Proposal_id (proposal v))"
  assume both: "(a, p, q) \<in> evidence (calls (NodeState_init n) cs) \<and>
            (a, q, p) \<in> evidence (calls (NodeState_init n) cs)"
  from both evidence_provenance [of "(a, p, q)" n cs] obtain i j where
    ij: "i < j" "j < length ?vs" "conflicts (?vs ! i) (?vs ! j)" "(a, p, q) = accuse (?vs ! i) (?vs ! j)"
    by blast
  from both evidence_provenance [of "(a, q, p)" n cs] obtain i' j' where
    ij': "i' < j'" "j' < length ?vs" "conflicts (?vs ! i') (?vs ! j')" "(a, q, p) = accuse (?vs ! i') (?vs ! j')"
    by blast
  from ij have k1: "?key (?vs ! i) = (a, p)" "?key (?vs ! j) = (a, q)"
    by (simp_all add: accuse_def conflicts_def)
  from ij' have k2: "?key (?vs ! i') = (a, q)" "?key (?vs ! j') = (a, p)"
    by (simp_all add: accuse_def conflicts_def)
  have len: "i < length ?vs" "i' < length ?vs"
    using ij ij' by simp_all
  have "map ?key ?vs ! i = map ?key ?vs ! j'"
    using k1 k2 len ij' by simp
  moreover have "i < length (map ?key ?vs)" "j' < length (map ?key ?vs)"
    using len ij' by simp_all
  ultimately have "i = j'"
    using nth_eq_iff_index_eq [OF assms, of i j'] by blast
  moreover have "map ?key ?vs ! j = map ?key ?vs ! i'"
    using k1 k2 len ij by simp
  moreover have "j < length (map ?key ?vs)" "i' < length (map ?key ?vs)"
    using len ij by simp_all
  then have "map ?key ?vs ! j = map ?key ?vs ! i' \<longrightarrow> j = i'"
    using nth_eq_iff_index_eq [OF assms, of j i'] by blast
  ultimately show False
    using ij(1) ij'(1) by simp
qed

text \<open>
  C2. Equivocation detection is complete and does not depend on the order: if two votes
  of the same voter, for proposals of the same view and proposer but with different block
  identifiers, both occur among the calls of a history (in either order, with any other
  calls between them, from any node state), then afterwards the evidence set holds an
  entry that names the voter and the identities of both proposals.
\<close>

theorem equivocation_detected:
  assumes "voter v1 = voter v2"
    and "view (proposal v1) = view (proposal v2)"
    and "proposer (proposal v1) = proposer (proposal v2)"
    and "block_id (proposal v1) \<noteq> block_id (proposal v2)"
    and "RecordVote v1 \<in> set cs" and "RecordVote v2 \<in> set cs"
  shows "(voter v1, Proposal_id (proposal v1), Proposal_id (proposal v2)) \<in> evidence (calls s cs) \<or>
         (voter v1, Proposal_id (proposal v2), Proposal_id (proposal v1)) \<in> evidence (calls s cs)"
proof -
  have c12: "conflicts v1 v2" and c21: "conflicts v2 v1"
    using assms(1-4) by (auto simp: conflicts_def)
  have "RecordVote v1 \<noteq> RecordVote v2"
    using assms(4) by auto
  with two_in_list [OF assms(5,6)] consider
    (fst) as bs ds where "cs = as @ RecordVote v1 # bs @ RecordVote v2 # ds"
  | (snd) as bs ds where "cs = as @ RecordVote v2 # bs @ RecordVote v1 # ds"
    by blast
  then show ?thesis
  proof cases
    case fst
    then show ?thesis
      using evidence_after_both [OF c12, of s as bs ds] assms(1) by (simp add: accuse_def)
  next
    case snd
    then show ?thesis
      using evidence_after_both [OF c21, of s as bs ds] assms(1) by (simp add: accuse_def)
  qed
qed

theorem equivocation_detected_witness:
  "(''C'', ''Y@v1'', ''X@v1'') \<in> evidence (calls (NodeState_init ''A'')
     [RecordVote \<lparr>voter = ''C'', proposal = \<lparr>block_id = ''Y'', parent_id = ''GENESIS'', view = 1, proposer = ''A''\<rparr>, signature = ''SIG(C:5e6f70)''\<rparr>,
      RecordVote \<lparr>voter = ''D'', proposal = \<lparr>block_id = ''Y'', parent_id = ''GENESIS'', view = 1, proposer = ''A''\<rparr>, signature = ''SIG(D:a1b2c3)''\<rparr>,
      RecordVote \<lparr>voter = ''C'', proposal = \<lparr>block_id = ''X'', parent_id = ''GENESIS'', view = 1, proposer = ''A''\<rparr>, signature = ''SIG(C:0a1b2c)''\<rparr>])"
  using equivocation_detected [of
      "\<lparr>voter = ''C'', proposal = \<lparr>block_id = ''X'', parent_id = ''GENESIS'', view = 1, proposer = ''A''\<rparr>, signature = ''SIG(C:0a1b2c)''\<rparr>"
      "\<lparr>voter = ''C'', proposal = \<lparr>block_id = ''Y'', parent_id = ''GENESIS'', view = 1, proposer = ''A''\<rparr>, signature = ''SIG(C:5e6f70)''\<rparr>"
      "[RecordVote \<lparr>voter = ''C'', proposal = \<lparr>block_id = ''Y'', parent_id = ''GENESIS'', view = 1, proposer = ''A''\<rparr>, signature = ''SIG(C:5e6f70)''\<rparr>,
      RecordVote \<lparr>voter = ''D'', proposal = \<lparr>block_id = ''Y'', parent_id = ''GENESIS'', view = 1, proposer = ''A''\<rparr>, signature = ''SIG(D:a1b2c3)''\<rparr>,
      RecordVote \<lparr>voter = ''C'', proposal = \<lparr>block_id = ''X'', parent_id = ''GENESIS'', view = 1, proposer = ''A''\<rparr>, signature = ''SIG(C:0a1b2c)''\<rparr>]"
      "NodeState_init ''A''"]
  by (simp add: node_eval)

text \<open>
  C3. No false equivocation: in a node created by \<open>NodeState(nid)\<close>, every evidence
  entry comes from two ingested votes of the same voter, for the same view and the same
  proposer, with different block identifiers, the first ingested before the second. So a
  voter \<open>a\<close> whose votes are, two by two, for different views, or for the same block
  identifier with different proposers, is never accused.
\<close>

theorem no_false_equivocation:
  assumes "e \<in> evidence (calls (NodeState_init n) cs)"
  shows "(\<exists>i j. i < j \<and> j < length (votes_of cs) \<and>
            voter (votes_of cs ! i) = voter (votes_of cs ! j) \<and>
            view (proposal (votes_of cs ! i)) = view (proposal (votes_of cs ! j)) \<and>
            proposer (proposal (votes_of cs ! i)) = proposer (proposal (votes_of cs ! j)) \<and>
            block_id (proposal (votes_of cs ! i)) \<noteq> block_id (proposal (votes_of cs ! j)) \<and>
            e = (voter (votes_of cs ! j), Proposal_id (proposal (votes_of cs ! i)),
                 Proposal_id (proposal (votes_of cs ! j)))) \<and>
         ((\<forall>v1 \<in> set (votes_of cs). \<forall>v2 \<in> set (votes_of cs).
              voter v1 = a \<and> voter v2 = a \<and> v1 \<noteq> v2 \<longrightarrow>
                view (proposal v1) \<noteq> view (proposal v2) \<or>
                (block_id (proposal v1) = block_id (proposal v2) \<and>
                 proposer (proposal v1) \<noteq> proposer (proposal v2)))
            \<longrightarrow> fst e \<noteq> a)"
proof -
  from evidence_provenance [OF assms] obtain i j where
    ij: "i < j" "j < length (votes_of cs)" "conflicts (votes_of cs ! i) (votes_of cs ! j)"
      "e = accuse (votes_of cs ! i) (votes_of cs ! j)"
    by blast
  then have first: "\<exists>i j. i < j \<and> j < length (votes_of cs) \<and>
            voter (votes_of cs ! i) = voter (votes_of cs ! j) \<and>
            view (proposal (votes_of cs ! i)) = view (proposal (votes_of cs ! j)) \<and>
            proposer (proposal (votes_of cs ! i)) = proposer (proposal (votes_of cs ! j)) \<and>
            block_id (proposal (votes_of cs ! i)) \<noteq> block_id (proposal (votes_of cs ! j)) \<and>
            e = (voter (votes_of cs ! j), Proposal_id (proposal (votes_of cs ! i)),
                 Proposal_id (proposal (votes_of cs ! j)))"
    unfolding conflicts_def accuse_def by blast
  from ij have mem: "votes_of cs ! i \<in> set (votes_of cs)" "votes_of cs ! j \<in> set (votes_of cs)"
    by simp_all
  from ij have who: "fst e = voter (votes_of cs ! j)" "fst e = voter (votes_of cs ! i)"
    by (simp_all add: accuse_def conflicts_def)
  from ij(3) have ne: "votes_of cs ! i \<noteq> votes_of cs ! j"
    by (auto simp: conflicts_def)
  from mem who ne ij(3) have second: "(\<forall>v1 \<in> set (votes_of cs). \<forall>v2 \<in> set (votes_of cs).
              voter v1 = a \<and> voter v2 = a \<and> v1 \<noteq> v2 \<longrightarrow>
                view (proposal v1) \<noteq> view (proposal v2) \<or>
                (block_id (proposal v1) = block_id (proposal v2) \<and>
                 proposer (proposal v1) \<noteq> proposer (proposal v2)))
            \<longrightarrow> fst e \<noteq> a"
    unfolding conflicts_def by metis
  from first second show ?thesis by (rule conjI)
qed

theorem no_false_equivocation_witness:
  "evidence (calls (NodeState_init ''D'')
     [RecordVote \<lparr>voter = ''A'', proposal = \<lparr>block_id = ''X'', parent_id = ''GENESIS'', view = 1, proposer = ''A''\<rparr>, signature = ''SIG(A:0a1b2c)''\<rparr>,
      RecordVote \<lparr>voter = ''A'', proposal = \<lparr>block_id = ''Y'', parent_id = ''GENESIS'', view = 2, proposer = ''A''\<rparr>, signature = ''SIG(A:5e6f70)''\<rparr>,
      RecordVote \<lparr>voter = ''A'', proposal = \<lparr>block_id = ''X'', parent_id = ''GENESIS'', view = 1, proposer = ''B''\<rparr>, signature = ''SIG(A:0a1b2c)''\<rparr>,
      RecordVote \<lparr>voter = ''B'', proposal = \<lparr>block_id = ''X'', parent_id = ''GENESIS'', view = 1, proposer = ''A''\<rparr>, signature = ''SIG(B:77aa10)''\<rparr>,
      RecordVote \<lparr>voter = ''B'', proposal = \<lparr>block_id = ''Y'', parent_id = ''GENESIS'', view = 1, proposer = ''A''\<rparr>, signature = ''SIG(B:c0ffee)''\<rparr>])
     = {(''B'', ''X@v1'', ''Y@v1'')} \<and>
   fst (''B'', ''X@v1'', ''Y@v1'') \<noteq> ''A''"
proof -
  let ?cs = "[RecordVote \<lparr>voter = ''A'', proposal = \<lparr>block_id = ''X'', parent_id = ''GENESIS'', view = 1, proposer = ''A''\<rparr>, signature = ''SIG(A:0a1b2c)''\<rparr>,
      RecordVote \<lparr>voter = ''A'', proposal = \<lparr>block_id = ''Y'', parent_id = ''GENESIS'', view = 2, proposer = ''A''\<rparr>, signature = ''SIG(A:5e6f70)''\<rparr>,
      RecordVote \<lparr>voter = ''A'', proposal = \<lparr>block_id = ''X'', parent_id = ''GENESIS'', view = 1, proposer = ''B''\<rparr>, signature = ''SIG(A:0a1b2c)''\<rparr>,
      RecordVote \<lparr>voter = ''B'', proposal = \<lparr>block_id = ''X'', parent_id = ''GENESIS'', view = 1, proposer = ''A''\<rparr>, signature = ''SIG(B:77aa10)''\<rparr>,
      RecordVote \<lparr>voter = ''B'', proposal = \<lparr>block_id = ''Y'', parent_id = ''GENESIS'', view = 1, proposer = ''A''\<rparr>, signature = ''SIG(B:c0ffee)''\<rparr>]"
  have ev: "evidence (calls (NodeState_init ''D'') ?cs) = {(''B'', ''X@v1'', ''Y@v1'')}"
    by (simp add: node_eval)
  then have h: "(''B'', ''X@v1'', ''Y@v1'') \<in> evidence (calls (NodeState_init ''D'') ?cs)"
    by simp
  have pairs: "\<forall>v1 \<in> set (votes_of ?cs). \<forall>v2 \<in> set (votes_of ?cs).
              voter v1 = ''A'' \<and> voter v2 = ''A'' \<and> v1 \<noteq> v2 \<longrightarrow>
                view (proposal v1) \<noteq> view (proposal v2) \<or>
                (block_id (proposal v1) = block_id (proposal v2) \<and>
                 proposer (proposal v1) \<noteq> proposer (proposal v2))"
    by simp
  from no_false_equivocation [OF h, of "''A''"] pairs
  have "fst (''B'', ''X@v1'', ''Y@v1'') \<noteq> ''A''"
    by blast
  with ev show ?thesis
    by blast
qed

text \<open>
  C4, as the code has it. An evidence entry is the tuple (voter, identity of the
  proposal of the vote ingested earlier, identity of the proposal of the vote ingested
  later); the set removes exact repeats of such a tuple and nothing else. When no voter's
  vote for one proposal identity is ingested more than once, the set never holds both
  \<open>(a, p, q)\<close> and the swapped \<open>(a, q, p)\<close>. When a vote is ingested, then a
  conflicting vote of the same voter, and then the first vote again (from any node state,
  with any other calls around them), the set holds both tuples.
\<close>

theorem evidence_entries_ordered:
  "((a, p, q) \<in> evidence (calls (NodeState_init n) cs) \<longrightarrow>
      (\<exists>i j. i < j \<and> j < length (votes_of cs) \<and>
         voter (votes_of cs ! i) = a \<and> voter (votes_of cs ! j) = a \<and>
         Proposal_id (proposal (votes_of cs ! i)) = p \<and>
         Proposal_id (proposal (votes_of cs ! j)) = q)) \<and>
   (distinct (map (\<lambda>v. (voter v, Proposal_id (proposal v))) (votes_of cs)) \<longrightarrow>
      \<not> ((a, p, q) \<in> evidence (calls (NodeState_init n) cs) \<and>
         (a, q, p) \<in> evidence (calls (NodeState_init n) cs))) \<and>
   (voter v1 = voter v2 \<and> view (proposal v1) = view (proposal v2) \<and>
    proposer (proposal v1) = proposer (proposal v2) \<and>
    block_id (proposal v1) \<noteq> block_id (proposal v2) \<longrightarrow>
      (voter v1, Proposal_id (proposal v1), Proposal_id (proposal v2))
         \<in> evidence (calls s (c1 @ RecordVote v1 # c2 @ RecordVote v2 # c3 @ RecordVote v1 # c4)) \<and>
      (voter v1, Proposal_id (proposal v2), Proposal_id (proposal v1))
         \<in> evidence (calls s (c1 @ RecordVote v1 # c2 @ RecordVote v2 # c3 @ RecordVote v1 # c4)))"
proof (intro conjI impI)
  assume "(a, p, q) \<in> evidence (calls (NodeState_init n) cs)"
  from evidence_provenance [OF this] obtain i j where
    "i < j" "j < length (votes_of cs)" "conflicts (votes_of cs ! i) (votes_of cs ! j)"
    "(a, p, q) = accuse (votes_of cs ! i) (votes_of cs ! j)"
    by blast
  then have "i < j \<and> j < length (votes_of cs) \<and>
         voter (votes_of cs ! i) = a \<and> voter (votes_of cs ! j) = a \<and>
         Proposal_id (proposal (votes_of cs ! i)) = p \<and>
         Proposal_id (proposal (votes_of cs ! j)) = q"
    by (simp add: accuse_def conflicts_def)
  then show "\<exists>i j. i < j \<and> j < length (votes_of cs) \<and>
         voter (votes_of cs ! i) = a \<and> voter (votes_of cs ! j) = a \<and>
         Proposal_id (proposal (votes_of cs ! i)) = p \<and>
         Proposal_id (proposal (votes_of cs ! j)) = q"
    by blast
next
  assume "distinct (map (\<lambda>v. (voter v, Proposal_id (proposal v))) (votes_of cs))"
  then show "\<not> ((a, p, q) \<in> evidence (calls (NodeState_init n) cs) \<and>
         (a, q, p) \<in> evidence (calls (NodeState_init n) cs))"
    by (rule no_swapped_pair)
next
  assume h: "voter v1 = voter v2 \<and> view (proposal v1) = view (proposal v2) \<and>
    proposer (proposal v1) = proposer (proposal v2) \<and>
    block_id (proposal v1) \<noteq> block_id (proposal v2)"
  then have c12: "conflicts v1 v2"
    by (auto simp: conflicts_def)
  from evidence_after_both [OF c12, of s c1 c2 "c3 @ RecordVote v1 # c4"] h
  show "(voter v1, Proposal_id (proposal v1), Proposal_id (proposal v2))
         \<in> evidence (calls s (c1 @ RecordVote v1 # c2 @ RecordVote v2 # c3 @ RecordVote v1 # c4))"
    by (simp add: accuse_def)
next
  assume h: "voter v1 = voter v2 \<and> view (proposal v1) = view (proposal v2) \<and>
    proposer (proposal v1) = proposer (proposal v2) \<and>
    block_id (proposal v1) \<noteq> block_id (proposal v2)"
  then have c21: "conflicts v2 v1"
    by (auto simp: conflicts_def)
  from evidence_after_both [OF c21, of s "c1 @ RecordVote v1 # c2" c3 c4] h
  show "(voter v1, Proposal_id (proposal v2), Proposal_id (proposal v1))
         \<in> evidence (calls s (c1 @ RecordVote v1 # c2 @ RecordVote v2 # c3 @ RecordVote v1 # c4))"
    by (simp add: accuse_def)
qed

theorem evidence_entries_ordered_witness:
  "distinct (map (\<lambda>v. (voter v, Proposal_id (proposal v))) (votes_of
     [RecordVote \<lparr>voter = ''C'', proposal = \<lparr>block_id = ''X'', parent_id = ''GENESIS'', view = 1, proposer = ''A''\<rparr>, signature = ''SIG(C:0a1b2c)''\<rparr>,
      RecordVote \<lparr>voter = ''C'', proposal = \<lparr>block_id = ''Y'', parent_id = ''GENESIS'', view = 1, proposer = ''A''\<rparr>, signature = ''SIG(C:5e6f70)''\<rparr>])) \<and>
   (''C'', ''X@v1'', ''Y@v1'') \<in> evidence (calls (NodeState_init ''A'')
     [RecordVote \<lparr>voter = ''C'', proposal = \<lparr>block_id = ''X'', parent_id = ''GENESIS'', view = 1, proposer = ''A''\<rparr>, signature = ''SIG(C:0a1b2c)''\<rparr>,
      RecordVote \<lparr>voter = ''C'', proposal = \<lparr>block_id = ''Y'', parent_id = ''GENESIS'', view = 1, proposer = ''A''\<rparr>, signature = ''SIG(C:5e6f70)''\<rparr>]) \<and>
   (''C'', ''Y@v1'', ''X@v1'') \<notin> evidence (calls (NodeState_init ''A'')
     [RecordVote \<lparr>voter = ''C'', proposal = \<lparr>block_id = ''X'', parent_id = ''GENESIS'', view = 1, proposer = ''A''\<rparr>, signature = ''SIG(C:0a1b2c)''\<rparr>,
      RecordVote \<lparr>voter = ''C'', proposal = \<lparr>block_id = ''Y'', parent_id = ''GENESIS'', view = 1, proposer = ''A''\<rparr>, signature = ''SIG(C:5e6f70)''\<rparr>])"
proof -
  let ?cs = "[RecordVote \<lparr>voter = ''C'', proposal = \<lparr>block_id = ''X'', parent_id = ''GENESIS'', view = 1, proposer = ''A''\<rparr>, signature = ''SIG(C:0a1b2c)''\<rparr>,
      RecordVote \<lparr>voter = ''C'', proposal = \<lparr>block_id = ''Y'', parent_id = ''GENESIS'', view = 1, proposer = ''A''\<rparr>, signature = ''SIG(C:5e6f70)''\<rparr>]"
  have d: "distinct (map (\<lambda>v. (voter v, Proposal_id (proposal v))) (votes_of ?cs))"
    by (simp add: node_eval)
  have e: "(''C'', ''X@v1'', ''Y@v1'') \<in> evidence (calls (NodeState_init ''A'') ?cs)"
    by (simp add: node_eval)
  from evidence_entries_ordered [where a = "''C''" and p = "''X@v1''" and q = "''Y@v1''"
      and n = "''A''" and cs = ?cs] d e
  have "(''C'', ''Y@v1'', ''X@v1'') \<notin> evidence (calls (NodeState_init ''A'') ?cs)"
    by blast
  with d e show ?thesis
    by blast
qed

text \<open>
  C4, as the claim states it, fails: a vote for X, a conflicting vote for Y and the vote
  for X once more (\<open>record_vote\<close> accepts a repeated vote) leave the same conflict in the
  evidence set twice, with the two proposal identities swapped.
\<close>

theorem evidence_swapped_counterexample:
  "(''C'', ''X@v1'', ''Y@v1'') \<in> evidence (calls (NodeState_init ''A'')
     [RecordVote \<lparr>voter = ''C'', proposal = \<lparr>block_id = ''X'', parent_id = ''GENESIS'', view = 1, proposer = ''A''\<rparr>, signature = ''SIG(C:0a1b2c)''\<rparr>,
      RecordVote \<lparr>voter = ''C'', proposal = \<lparr>block_id = ''Y'', parent_id = ''GENESIS'', view = 1, proposer = ''A''\<rparr>, signature = ''SIG(C:5e6f70)''\<rparr>,
      RecordVote \<lparr>voter = ''C'', proposal = \<lparr>block_id = ''X'', parent_id = ''GENESIS'', view = 1, proposer = ''A''\<rparr>, signature = ''SIG(C:0a1b2c)''\<rparr>]) \<and>
   (''C'', ''Y@v1'', ''X@v1'') \<in> evidence (calls (NodeState_init ''A'')
     [RecordVote \<lparr>voter = ''C'', proposal = \<lparr>block_id = ''X'', parent_id = ''GENESIS'', view = 1, proposer = ''A''\<rparr>, signature = ''SIG(C:0a1b2c)''\<rparr>,
      RecordVote \<lparr>voter = ''C'', proposal = \<lparr>block_id = ''Y'', parent_id = ''GENESIS'', view = 1, proposer = ''A''\<rparr>, signature = ''SIG(C:5e6f70)''\<rparr>,
      RecordVote \<lparr>voter = ''C'', proposal = \<lparr>block_id = ''X'', parent_id = ''GENESIS'', view = 1, proposer = ''A''\<rparr>, signature = ''SIG(C:0a1b2c)''\<rparr>]) \<and>
   (''C'', ''X@v1'', ''Y@v1'') \<noteq> (''C'', ''Y@v1'', ''X@v1'')"
  by (simp add: node_eval)


subsection \<open>Quorum certificates\<close>

lemma try_form_qc_Some:
  assumes "try_form_qc s p Q = (s', Some qc)"
  shows "qc = (p, sort (map voter (slice_to (dict_get (received_votes s) (Proposal_id p) []) Q)))"
    and "Q \<le> int (length (dict_get (received_votes s) (Proposal_id p) []))"
  using assms by (auto simp: try_form_qc_def Let_def split: if_splits)

lemma count_list_insort_key: "count_list (insort_key f x xs) a = count_list (x # xs) a"
  by (induction xs) auto

lemma count_list_sort_key: "count_list (sort_key f xs) a = count_list xs a"
  by (induction xs) (simp_all add: count_list_insort_key)

text \<open>
  C5, as the code has it. A QC returned by \<open>try_form_qc\<close> for a quorum \<open>Q \<ge> 0\<close> is
  formed only when at least \<open>Q\<close> votes are recorded for the proposal, and it is exactly
  the proposal paired with the sorted list of the voters of the first \<open>Q\<close> of these
  votes. So it holds exactly \<open>Q\<close> voter identifiers, and each identifier occurs in it as
  often as that voter occurs among the first \<open>Q\<close> votes: a vote recorded twice is
  counted twice. The number of distinct voters among them is at most \<open>Q\<close>, and it is
  \<open>Q\<close> exactly when those first \<open>Q\<close> votes come from distinct voters.
\<close>

theorem qc_voters_counted_with_repeats:
  assumes "try_form_qc s p Q = (s', Some qc)" and "0 \<le> Q"
  shows "fst qc = p \<and>
         length (snd qc) = nat Q \<and>
         sorted (snd qc) \<and>
         set (snd qc) = voter ` set (take (nat Q) (dict_get (received_votes s) (Proposal_id p) [])) \<and>
         card (set (snd qc)) \<le> nat Q \<and>
         (card (set (snd qc)) = nat Q \<longleftrightarrow>
            distinct (map voter (take (nat Q) (dict_get (received_votes s) (Proposal_id p) [])))) \<and>
         nat Q \<le> length (dict_get (received_votes s) (Proposal_id p) []) \<and>
         qc = (p, sort (map voter (take (nat Q) (dict_get (received_votes s) (Proposal_id p) [])))) \<and>
         (\<forall>a. count_list (snd qc) a =
              count_list (map voter (take (nat Q) (dict_get (received_votes s) (Proposal_id p) []))) a)"
proof -
  let ?votes = "dict_get (received_votes s) (Proposal_id p) []"
  let ?vs = "map voter (take (nat Q) ?votes)"
  from try_form_qc_Some [OF assms(1)] assms(2)
  have qc: "qc = (p, sort ?vs)" and len: "nat Q \<le> length ?votes"
    by (simp_all add: slice_to_def)
  have l: "length (snd qc) = nat Q"
    using qc len by simp
  have s: "set (snd qc) = set ?vs"
    using qc by simp
  have c: "card (set (snd qc)) \<le> nat Q"
    using l card_length [of "snd qc"] by simp
  have "length ?vs = nat Q"
    using len by simp
  then have d: "card (set (snd qc)) = nat Q \<longleftrightarrow> distinct ?vs"
    unfolding s using card_distinct [of ?vs] distinct_card [of ?vs] by auto
  have m: "\<forall>a. count_list (snd qc) a = count_list ?vs a"
    using qc by (simp add: count_list_sort_key)
  from qc l s c d len m show ?thesis
    by simp
qed

theorem qc_voters_counted_with_repeats_witness:
  "try_form_qc \<lparr>node_id = ''A'',
      received_votes = [(''Z@v2'',
        [\<lparr>voter = ''C'', proposal = \<lparr>block_id = ''Z'', parent_id = ''GENESIS'', view = 2, proposer = ''B''\<rparr>, signature = ''SIG(C:0a1b2c)''\<rparr>,
         \<lparr>voter = ''D'', proposal = \<lparr>block_id = ''Z'', parent_id = ''GENESIS'', view = 2, proposer = ''B''\<rparr>, signature = ''SIG(D:c0ffee)''\<rparr>,
         \<lparr>voter = ''C'', proposal = \<lparr>block_id = ''Z'', parent_id = ''GENESIS'', view = 2, proposer = ''B''\<rparr>, signature = ''SIG(C:0a1b2c)''\<rparr>,
         \<lparr>voter = ''A'', proposal = \<lparr>block_id = ''Z'', parent_id = ''GENESIS'', view = 2, proposer = ''B''\<rparr>, signature = ''SIG(A:5e6f70)''\<rparr>])],
      evidence = {}, committed = [], highest_qc = None\<rparr>
      \<lparr>block_id = ''Z'', parent_id = ''GENESIS'', view = 2, proposer = ''B''\<rparr> 3
   = (\<lparr>node_id = ''A'',
      received_votes = [(''Z@v2'',
        [\<lparr>voter = ''C'', proposal = \<lparr>block_id = ''Z'', parent_id = ''GENESIS'', view = 2, proposer = ''B''\<rparr>, signature = ''SIG(C:0a1b2c)''\<rparr>,
         \<lparr>voter = ''D'', proposal = \<lparr>block_id = ''Z'', parent_id = ''GENESIS'', view = 2, proposer = ''B''\<rparr>, signature = ''SIG(D:c0ffee)''\<rparr>,
         \<lparr>voter = ''C'', proposal = \<lparr>block_id = ''Z'', parent_id = ''GENESIS'', view = 2, proposer = ''B''\<rparr>, signature = ''SIG(C:0a1b2c)''\<rparr>,
         \<lparr>voter = ''A'', proposal = \<lparr>block_id = ''Z'', parent_id = ''GENESIS'', view = 2, proposer = ''B''\<rparr>, signature = ''SIG(A:5e6f70)''\<rparr>])],
      evidence = {}, committed = [],
      highest_qc = Some (\<lparr>block_id = ''Z'', parent_id = ''GENESIS'', view = 2, proposer = ''B''\<rparr>, [''C'', ''C'', ''D''])\<rparr>,
      Some (\<lparr>block_id = ''Z'', parent_id = ''GENESIS'', view = 2, proposer = ''B''\<rparr>, [''C'', ''C'', ''D''])) \<and>
   count_list (snd (\<lparr>block_id = ''Z'', parent_id = ''GENESIS'', view = 2, proposer = ''B''\<rparr>, [''C'', ''C'', ''D''])) ''C'' = 2 \<and>
   card (set (snd (\<lparr>block_id = ''Z'', parent_id = ''GENESIS'', view = 2, proposer = ''B''\<rparr>, [''C'', ''C'', ''D'']))) \<noteq> nat 3"
proof -
  let ?s = "\<lparr>node_id = ''A'',
      received_votes = [(''Z@v2'',
        [\<lparr>voter = ''C'', proposal = \<lparr>block_id = ''Z'', parent_id = ''GENESIS'', view = 2, proposer = ''B''\<rparr>, signature = ''SIG(C:0a1b2c)''\<rparr>,
         \<lparr>voter = ''D'', proposal = \<lparr>block_id = ''Z'', parent_id = ''GENESIS'', view = 2, proposer = ''B''\<rparr>, signature = ''SIG(D:c0ffee)''\<rparr>,
         \<lparr>voter = ''C'', proposal = \<lparr>block_id = ''Z'', parent_id = ''GENESIS'', view = 2, proposer = ''B''\<rparr>, signature = ''SIG(C:0a1b2c)''\<rparr>,
         \<lparr>voter = ''A'', proposal = \<lparr>block_id = ''Z'', parent_id = ''GENESIS'', view = 2, proposer = ''B''\<rparr>, signature = ''SIG(A:5e6f70)''\<rparr>])],
      evidence = {}, committed = [], highest_qc = None\<rparr>"
  let ?p = "\<lparr>block_id = ''Z'', parent_id = ''GENESIS'', view = 2, proposer = ''B''\<rparr>"
  have run: "try_form_qc ?s ?p 3 = (?s\<lparr>highest_qc := Some (?p, [''C'', ''C'', ''D''])\<rparr>, Some (?p, [''C'', ''C'', ''D'']))"
    by (simp add: try_form_qc_def dict_get_def Proposal_id_def str_int_def str_nat.simps
        digit_char_def slice_to_def Let_def)
  have d: "\<not> distinct (map voter (take (nat 3) (dict_get (received_votes ?s) (Proposal_id ?p) [])))"
    by (simp add: dict_get_def Proposal_id_def str_int_def str_nat.simps digit_char_def)
  have c: "count_list (map voter (take (nat 3) (dict_get (received_votes ?s) (Proposal_id ?p) []))) ''C'' = 2"
    by (simp add: dict_get_def Proposal_id_def str_int_def str_nat.simps digit_char_def)
  have q: "(0::int) \<le> 3"
    by simp
  from qc_voters_counted_with_repeats [OF run q] d c
  have "count_list (snd (?p, [''C'', ''C'', ''D''])) ''C'' = 2 \<and>
        card (set (snd (?p, [''C'', ''C'', ''D'']))) \<noteq> nat 3"
    by metis
  with run show ?thesis
    by simp
qed

text \<open>
  C5, as the claim states it, fails: \<open>record_vote\<close> appends a repeated vote, so after
  the same vote of one voter was delivered three times, \<open>try_form_qc\<close> with
  \<open>Q = 2 * 1 + 1\<close> returns a QC whose voters are one distinct identifier.
\<close>

theorem qc_distinct_voters_counterexample:
  "snd (try_form_qc (calls (NodeState_init ''A'')
     [RecordVote \<lparr>voter = ''C'', proposal = \<lparr>block_id = ''X'', parent_id = ''GENESIS'', view = 1, proposer = ''A''\<rparr>, signature = ''SIG(C:0a1b2c)''\<rparr>,
      RecordVote \<lparr>voter = ''C'', proposal = \<lparr>block_id = ''X'', parent_id = ''GENESIS'', view = 1, proposer = ''A''\<rparr>, signature = ''SIG(C:0a1b2c)''\<rparr>,
      RecordVote \<lparr>voter = ''C'', proposal = \<lparr>block_id = ''X'', parent_id = ''GENESIS'', view = 1, proposer = ''A''\<rparr>, signature = ''SIG(C:0a1b2c)''\<rparr>])
     \<lparr>block_id = ''X'', parent_id = ''GENESIS'', view = 1, proposer = ''A''\<rparr> (2 * 1 + 1))
   = Some (\<lparr>block_id = ''X'', parent_id = ''GENESIS'', view = 1, proposer = ''A''\<rparr>, [''C'', ''C'', ''C'']) \<and>
   card (set [''C'', ''C'', ''C'']) = 1 \<and> \<not> (2 * 1 + 1 \<le> card (set [''C'', ''C'', ''C'']))"
  by (simp add: node_eval try_form_qc_def slice_to_def)

subsection \<open>Frame and growth\<close>

lemma votes_record_vote:
  "dict_get (received_votes (record_vote s v)) k [] =
   (if k = Proposal_id (proposal v) then dict_get (received_votes s) k [] @ [v]
    else dict_get (received_votes s) k [])"
  by (simp add: record_vote_def Let_def dict_get_store_vote)

lemma keys_record_vote:
  "prefix (map fst (received_votes s)) (map fst (received_votes (record_vote s v)))"
  by (simp add: record_vote_def Let_def keys_store_vote)

lemma evidence_record_vote_mono: "evidence s \<subseteq> evidence (record_vote s v)"
  by (simp add: evidence_record_vote)

lemma call_growth:
  "prefix (committed s) (committed (call s c)) \<and>
   prefix (dict_get (received_votes s) k []) (dict_get (received_votes (call s c)) k []) \<and>
   prefix (map fst (received_votes s)) (map fst (received_votes (call s c)))"
  by (cases c) (simp_all add: record_vote_frame try_form_qc_frame apply_qc_commit_frame
      apply_qc_commit_prefix votes_record_vote keys_record_vote)

lemma calls_growth:
  "prefix (committed s) (committed (calls s cs)) \<and>
   prefix (dict_get (received_votes s) k []) (dict_get (received_votes (calls s cs)) k []) \<and>
   prefix (map fst (received_votes s)) (map fst (received_votes (calls s cs)))"
proof (induction cs arbitrary: s)
  case Nil
  then show ?case by (simp add: calls_Nil)
next
  case (Cons c cs)
  from call_growth [of s c k] Cons.IH [of "call s c"] show ?case
    by (auto simp: calls_Cons intro: prefix_order.trans)
qed

text \<open>
  C10. Frame and growth: \<open>record_vote\<close> leaves \<open>committed\<close> and \<open>highest_qc\<close> alone and
  only adds to the evidence set and to the vote lists (each list, and the order of the
  keys of the vote dict, is extended at its end); \<open>try_form_qc\<close> leaves the votes, the
  evidence and the committed list alone; \<open>apply_qc_commit\<close> leaves the votes, the
  evidence and \<open>highest_qc\<close> alone and extends the committed list at its end. Hence
  after any history the old evidence is still there, and the old committed list and the
  old vote lists are prefixes of the new ones.
\<close>

theorem frame_and_growth:
  "(committed (record_vote s v) = committed s \<and>
    highest_qc (record_vote s v) = highest_qc s \<and>
    evidence s \<subseteq> evidence (record_vote s v) \<and>
    prefix (dict_get (received_votes s) k []) (dict_get (received_votes (record_vote s v)) k []) \<and>
    prefix (map fst (received_votes s)) (map fst (received_votes (record_vote s v)))) \<and>
   (received_votes (fst (try_form_qc s p q)) = received_votes s \<and>
    evidence (fst (try_form_qc s p q)) = evidence s \<and>
    committed (fst (try_form_qc s p q)) = committed s) \<and>
   (received_votes (apply_qc_commit s qc) = received_votes s \<and>
    evidence (apply_qc_commit s qc) = evidence s \<and>
    highest_qc (apply_qc_commit s qc) = highest_qc s \<and>
    prefix (committed s) (committed (apply_qc_commit s qc))) \<and>
   (evidence s \<subseteq> evidence (calls s cs) \<and>
    prefix (committed s) (committed (calls s cs)) \<and>
    prefix (dict_get (received_votes s) k []) (dict_get (received_votes (calls s cs)) k []) \<and>
    prefix (map fst (received_votes s)) (map fst (received_votes (calls s cs))))"
proof -
  have rv: "prefix (dict_get (received_votes s) k []) (dict_get (received_votes (record_vote s v)) k [])"
    by (simp add: votes_record_vote)
  show ?thesis
    using calls_growth [of s cs k] evidence_calls_mono [of s cs] rv
    by (simp add: record_vote_frame try_form_qc_frame apply_qc_commit_frame
        evidence_record_vote_mono keys_record_vote apply_qc_commit_prefix)
qed


section \<open>Properties of the Run Simulation handler\<close>

subsection \<open>The phases in closed form\<close>

lemma log_kinds:
  "log lg m ''info'' = lg @ [(Write, m)]"
  "log lg m ''success'' = lg @ [(Success, m)]"
  "log lg m ''warning'' = lg @ [(Warning, m)]"
  "log lg m ''error'' = lg @ [(Error, m)]"
  by (simp_all add: log_def)

lemma cast_votes_eq:
  "cast_votes sha p vs (votes, nodes, lg) =
   (votes @ map (\<lambda>v. \<lparr>voter = v, proposal = p, signature = sign sha v (Proposal_id p)\<rparr>) vs,
    map (\<lambda>(nid, nd). (nid, foldl record_vote nd
          (map (\<lambda>v. \<lparr>voter = v, proposal = p, signature = sign sha v (Proposal_id p)\<rparr>) vs))) nodes,
    lg @ map (\<lambda>v. (Write, Voted v (Proposal_id p))) vs)"
  by (induction vs arbitrary: votes nodes lg)
    (simp_all add: Let_def deliver_def log_kinds case_prod_unfold o_def)

lemma votes_foldl_record_vote:
  "dict_get (received_votes (foldl record_vote nd vs)) k [] =
   dict_get (received_votes nd) k [] @ filter (\<lambda>v. Proposal_id (proposal v) = k) vs"
  by (induction vs arbitrary: nd) (simp_all add: votes_record_vote)

lemma try_form_qc_None:
  "int (length (dict_get (received_votes s) (Proposal_id p) [])) < Q \<Longrightarrow> try_form_qc s p Q = (s, None)"
  by (simp add: try_form_qc_def Let_def)

lemma poll_qcs2_none:
  "(\<And>nid nd. (nid, nd) \<in> set nodes \<Longrightarrow>
      try_form_qc nd propA Q = (nd, None) \<and> try_form_qc nd propB Q = (nd, None)) \<Longrightarrow>
   poll_qcs2 propA propB Q nodes (done, qcs) = (done @ nodes, qcs)"
proof (induction nodes arbitrary: "done" qcs)
  case Nil
  then show ?case by simp
next
  case (Cons a nodes)
  obtain nid nd where a: "a = (nid, nd)" by (cases a)
  from Cons.prems [of nid nd] a
  have "try_form_qc nd propA Q = (nd, None)" "try_form_qc nd propB Q = (nd, None)"
    by simp_all
  moreover have "poll_qcs2 propA propB Q nodes (done @ [(nid, nd)], qcs) = ((done @ [(nid, nd)]) @ nodes, qcs)"
  proof (rule Cons.IH)
    fix nid' nd'
    assume "(nid', nd') \<in> set nodes"
    then show "try_form_qc nd' propA Q = (nd', None) \<and> try_form_qc nd' propB Q = (nd', None)"
      using Cons.prems [of nid' nd'] by simp
  qed
  ultimately show ?case
    by (simp add: a append_if_def)
qed

lemma set_alist_update: "set (AList.update k v al) \<subseteq> insert (k, v) (set al)"
  by (induction al) auto

lemma init_nodes_fresh_aux:
  "(\<And>k x. (k, x) \<in> set d \<Longrightarrow> x = NodeState_init k) \<Longrightarrow>
   (nid, nd) \<in> set (foldl (\<lambda>d nid. AList.update nid (NodeState_init nid) d) d ids) \<Longrightarrow>
   nd = NodeState_init nid"
proof (induction ids arbitrary: d)
  case Nil
  then show ?case by simp
next
  case (Cons i ids)
  have "\<And>k x. (k, x) \<in> set (AList.update i (NodeState_init i) d) \<Longrightarrow> x = NodeState_init k"
  proof -
    fix k x
    assume "(k, x) \<in> set (AList.update i (NodeState_init i) d)"
    then have "(k, x) = (i, NodeState_init i) \<or> (k, x) \<in> set d"
      using set_alist_update [of i "NodeState_init i" d] by auto
    then show "x = NodeState_init k"
      using Cons.prems(1) by auto
  qed
  from Cons.IH [OF this] Cons.prems(2) show ?case
    by simp
qed

lemma init_nodes_fresh: "(nid, nd) \<in> set (init_nodes ids) \<Longrightarrow> nd = NodeState_init nid"
  unfolding init_nodes_def by (rule init_nodes_fresh_aux [of "[]"]) simp_all

lemma poll_qcs_eq:
  "poll_qcs p Q nodes (done, qcs) =
   (done @ map (\<lambda>(nid, nd). (nid, fst (try_form_qc nd p Q))) nodes,
    qcs @ concat (map (\<lambda>(nid, nd). case snd (try_form_qc nd p Q) of None \<Rightarrow> [] | Some q \<Rightarrow> [q]) nodes))"
proof (induction nodes arbitrary: "done" qcs)
  case Nil
  then show ?case by simp
next
  case (Cons a nodes)
  obtain nid nd where a: "a = (nid, nd)" by (cases a)
  show ?case
    unfolding a by (cases "try_form_qc nd p Q") (simp add: Cons.IH append_if_def split: option.splits)
qed

lemma gen7: "gen_node_ids 7 = [''A'', ''B'', ''C'', ''D'', ''E'', ''F'', ''G'']"
  by (simp add: gen_node_ids_def node_name_def upt_rec)

lemma init7: "init_nodes [''A'', ''B'', ''C'', ''D'', ''E'', ''F'', ''G''] =
  map (\<lambda>n. (n, NodeState_init n)) [''A'', ''B'', ''C'', ''D'', ''E'', ''F'', ''G'']"
  by (simp add: init_nodes_def)

lemma collect_evidence_eq: "collect_evidence nodes = (\<Union>(nid, nd) \<in> set nodes. evidence nd)"
proof -
  have "foldl (\<lambda>ev (nid, nd). ev \<union> evidence nd) acc nodes = acc \<union> (\<Union>(nid, nd) \<in> set nodes. evidence nd)"
    for acc
    by (induction nodes arbitrary: acc) auto
  then show ?thesis
    by (simp add: collect_evidence_def)
qed

subsection \<open>A split below the quorum forms no QC\<close>

lemma attack_round_no_qc:
  assumes ids: "Proposal_id propA \<noteq> Proposal_id propB"
    and lenA: "int (length targetsA) < Q" and lenB: "int (length targetsB) < Q"
    and fresh: "\<And>nid nd. (nid, nd) \<in> set start \<Longrightarrow> received_votes nd = []"
  shows "\<exists>nodes3 ev lg3 more.
           attack_round sha propA propB targetsA targetsB Q start lg =
             (nodes3, [], ev, lg3 @ (Success, NoQCFormed) # more) \<and>
           (\<forall>(nid, nd) \<in> set nodes3.
              try_form_qc nd propA Q = (nd, None) \<and> try_form_qc nd propB Q = (nd, None))"
proof -
  define vsA where "vsA = map (\<lambda>v. \<lparr>voter = v, proposal = propA, signature = sign sha v (Proposal_id propA)\<rparr>) targetsA"
  define vsB where "vsB = map (\<lambda>v. \<lparr>voter = v, proposal = propB, signature = sign sha v (Proposal_id propB)\<rparr>) targetsB"
  define nodes1 where "nodes1 = map (\<lambda>(nid, nd). (nid, foldl record_vote nd vsA)) start"
  define nodes2 where "nodes2 = map (\<lambda>(nid, nd). (nid, foldl record_vote nd vsB)) nodes1"
  define lg2 where "lg2 = lg @ map (\<lambda>v. (Write, Voted v (Proposal_id propA))) targetsA"
  define lg3 where "lg3 = lg2 @ map (\<lambda>v. (Write, Voted v (Proposal_id propB))) targetsB"
  have castA: "cast_votes sha propA targetsA ([], start, lg) = (vsA, nodes1, lg2)"
    unfolding vsA_def nodes1_def lg2_def by (simp only: cast_votes_eq append_Nil)
  have castB: "cast_votes sha propB targetsB (vsA, nodes1, lg2) = (vsA @ vsB, nodes2, lg3)"
    unfolding vsB_def nodes2_def lg3_def by (simp only: cast_votes_eq)
  have pidA: "\<And>v. v \<in> set vsA \<Longrightarrow> Proposal_id (proposal v) = Proposal_id propA"
    and pidB: "\<And>v. v \<in> set vsB \<Longrightarrow> Proposal_id (proposal v) = Proposal_id propB"
    by (auto simp: vsA_def vsB_def)
  have fA: "filter (\<lambda>v. Proposal_id (proposal v) = Proposal_id propA) (vsA @ vsB) = vsA"
    and fB: "filter (\<lambda>v. Proposal_id (proposal v) = Proposal_id propB) (vsA @ vsB) = vsB"
    using ids pidA pidB by (auto simp: filter_empty_conv filter_id_conv)
  have lens: "length vsA = length targetsA" "length vsB = length targetsB"
    by (simp_all add: vsA_def vsB_def)
  have none: "try_form_qc nd propA Q = (nd, None) \<and> try_form_qc nd propB Q = (nd, None)"
    if "(nid, nd) \<in> set nodes2" for nid nd
  proof -
    from that obtain nd0 where nd0: "(nid, nd0) \<in> set start"
      "nd = foldl record_vote nd0 (vsA @ vsB)"
      by (auto simp: nodes2_def nodes1_def)
    from fresh [OF nd0(1)] have e: "dict_get (received_votes nd0) k [] = []" for k
      by (simp add: dict_get_def)
    have a: "dict_get (received_votes nd) (Proposal_id propA) [] = vsA"
      unfolding nd0(2) votes_foldl_record_vote e fA by simp
    have b: "dict_get (received_votes nd) (Proposal_id propB) [] = vsB"
      unfolding nd0(2) votes_foldl_record_vote e fB by simp
    from a lenA lens have "try_form_qc nd propA Q = (nd, None)"
      by (intro try_form_qc_None) simp
    moreover from b lenB lens have "try_form_qc nd propB Q = (nd, None)"
      by (intro try_form_qc_None) simp
    ultimately show ?thesis ..
  qed
  then have poll: "poll_qcs2 propA propB Q nodes2 ([], []) = (nodes2, [])"
    using poll_qcs2_none [of nodes2 propA Q propB "[]" "[]"] by simp
  have "\<exists>more. attack_round sha propA propB targetsA targetsB Q start lg =
          (nodes2, [], collect_evidence nodes2, lg3 @ (Success, NoQCFormed) # more)"
    by (simp add: attack_round_def castA castB poll log_kinds Let_def)
  with none show ?thesis
    by blast
qed

lemma length_gen_node_ids: "length (gen_node_ids N) = N"
  by (simp add: gen_node_ids_def)

lemma foldl_snoc_eq: "foldl (\<lambda>lg x. lg @ [g x]) lg xs = lg @ map g xs"
  by (induction xs arbitrary: lg) simp_all

lemma safe_round_log: "\<exists>more. snd (safe_round sha ids Q nodes3 view1 leader lg5) = lg5 @ more"
  by (simp add: safe_round_def Let_def cast_votes_eq case_prod_unfold log_kinds foldl_snoc_eq
      split: list.splits)

lemma XY_ids:
  "Proposal_id \<lparr>block_id = ''X'', parent_id = pa, view = v, proposer = l\<rparr> \<noteq>
   Proposal_id \<lparr>block_id = ''Y'', parent_id = pb, view = v, proposer = l\<rparr>"
  by (simp add: Proposal_id_def)

lemma init_nodes_no_votes: "(nid, nd) \<in> set (init_nodes ids) \<Longrightarrow> received_votes nd = []"
  by (drule init_nodes_fresh) (simp add: NodeState_init_def)

lemma equivocation_demo_no_qc:
  assumes "int (length ids - length ids div 2) < Q" and "ids \<noteq> []"
  shows "\<exists>nodes6 lg. equivocation_demo sha ids Q (init_nodes ids) view0 k L lg0 = Inr (nodes6, lg) \<and>
           (Success, NoQCFormed) \<in> set lg"
proof -
  let ?pA = "\<lparr>block_id = ''X'', parent_id = ''GENESIS'', view = view0, proposer = L\<rparr>"
  let ?pB = "\<lparr>block_id = ''Y'', parent_id = ''GENESIS'', view = view0, proposer = L\<rparr>"
  let ?tA = "take (length ids div 2) ids"
  let ?tB = "drop (length ids div 2) ids"
  let ?lg1 = "log lg0 (Sends L (Proposal_id ?pA) ?tA (Proposal_id ?pB) ?tB) ''info''"
  have lA: "int (length ?tA) < Q" and lB: "int (length ?tB) < Q"
    using assms(1) by simp_all
  have "\<exists>nodes3 ev lg3 more.
           attack_round sha ?pA ?pB ?tA ?tB Q (init_nodes ids) ?lg1 =
             (nodes3, [], ev, lg3 @ (Success, NoQCFormed) # more) \<and>
           (\<forall>(nid, nd) \<in> set nodes3.
              try_form_qc nd ?pA Q = (nd, None) \<and> try_form_qc nd ?pB Q = (nd, None))"
  proof (rule attack_round_no_qc)
    show "Proposal_id ?pA \<noteq> Proposal_id ?pB"
      by (rule XY_ids)
    show "int (length ?tA) < Q" "int (length ?tB) < Q"
      by (rule lA, rule lB)
    show "\<And>nid nd. (nid, nd) \<in> set (init_nodes ids) \<Longrightarrow> received_votes nd = []"
      by (rule init_nodes_no_votes)
  qed
  then obtain nodes3 ev lg3 more where
    ar: "attack_round sha ?pA ?pB ?tA ?tB Q (init_nodes ids) ?lg1 =
           (nodes3, [], ev, lg3 @ (Success, NoQCFormed) # more)"
    by blast
  obtain more2 where
    sr: "snd (safe_round sha ids Q nodes3 (view0 + 1) (ids ! ((k + 1) mod length ids))
            (lg3 @ (Success, NoQCFormed) # more)) = (lg3 @ (Success, NoQCFormed) # more) @ more2"
    using safe_round_log by blast
  have "equivocation_demo sha ids Q (init_nodes ids) view0 k L lg0 =
        Inr (safe_round sha ids Q nodes3 (view0 + 1) (ids ! ((k + 1) mod length ids))
            (lg3 @ (Success, NoQCFormed) # more))"
    using assms(2) by (simp add: equivocation_demo_def Let_def ar index_mod_def)
  with sr show ?thesis
    by (cases "safe_round sha ids Q nodes3 (view0 + 1) (ids ! ((k + 1) mod length ids))
            (lg3 @ (Success, NoQCFormed) # more)") auto
qed

lemma run_no_qc:
  assumes "0 < N" and "int (N - N div 2) < 2 * int F + 1" and "startswith attack_type ''Equivocation''"
  shows "\<exists>out. Run_Simulation sha N F faulty_leader attack_type = Inr out \<and>
           (Success, NoQCFormed) \<in> set (logged out)"
proof -
  define ids where "ids = gen_node_ids N"
  define L where "L = (if faulty_leader \<noteq> ''None'' then faulty_leader else ids ! (0 mod length ids))"
  have len: "length ids = N" and ne: "ids \<noteq> []"
    using assms(1) by (auto simp: ids_def length_gen_node_ids gen_node_ids_def)
  have leader: "(if faulty_leader \<noteq> ''None'' then Inr faulty_leader else index_mod ids 0) = Inr L"
    using ne by (simp add: L_def index_mod_def)
  from equivocation_demo_no_qc [of ids "2 * int F + 1" sha 1 0 L "log [] (LeaderIs 1 L) ''info''"]
    assms(2) len ne
  obtain nodes6 lg where
    demo: "equivocation_demo sha ids (2 * int F + 1) (init_nodes ids) 1 0 L (log [] (LeaderIs 1 L) ''info'')
             = Inr (nodes6, lg)"
    and mem: "(Success, NoQCFormed) \<in> set lg"
    by auto
  have "Run_Simulation sha N F faulty_leader attack_type =
        Inr \<lparr>final_nodes = nodes6, logged = log lg (Text ''Simulation complete.'') ''info''\<rparr>"
    unfolding Run_Simulation_def ids_def [symmetric] Let_def leader
    using assms(3) by (simp add: demo)
  with mem show ?thesis
    by (simp add: log_kinds)
qed

text \<open>
  C1. Quorum safety of QC formation. For every list of node identifiers, every fault
  bound \<open>f\<close> with quorum \<open>2f + 1\<close>, and every two conflicting proposals (same view,
  different block identifiers): when the leader's two target groups each have fewer than
  \<open>2f + 1\<close> members and each target casts its one vote, delivered to every node, the
  attack round ends with an empty list of QCs, logs that no QC was formed, and
  \<open>try_form_qc\<close> returns no QC at every node for either proposal. For the handler
  itself, which splits the \<open>N\<close> identifiers at \<open>N div 2\<close>: when the larger group,
  of \<open>N - N div 2\<close> members, is below the quorum, the run logs that no QC was formed.
\<close>

theorem no_qc_when_split_below_quorum:
  "(block_id propA \<noteq> block_id propB \<and> view propA = view propB \<and>
    int (length targetsA) < 2 * int f + 1 \<and> int (length targetsB) < 2 * int f + 1 \<longrightarrow>
      (\<exists>nodes3 ev lg5.
         attack_round sha propA propB targetsA targetsB (2 * int f + 1) (init_nodes NODE_IDS) lg =
           (nodes3, [], ev, lg5) \<and>
         (Success, NoQCFormed) \<in> set lg5 \<and>
         (\<forall>(nid, nd) \<in> set nodes3.
            snd (try_form_qc nd propA (2 * int f + 1)) = None \<and>
            snd (try_form_qc nd propB (2 * int f + 1)) = None))) \<and>
   (0 < N \<and> int (N - N div 2) < 2 * int f + 1 \<and> startswith attack_type ''Equivocation'' \<longrightarrow>
      (\<exists>out. Run_Simulation sha N f faulty_leader attack_type = Inr out \<and>
         (Success, NoQCFormed) \<in> set (logged out)))"
proof (intro conjI impI)
  assume h: "block_id propA \<noteq> block_id propB \<and> view propA = view propB \<and>
    int (length targetsA) < 2 * int f + 1 \<and> int (length targetsB) < 2 * int f + 1"
  then have ids: "Proposal_id propA \<noteq> Proposal_id propB"
    by (simp add: Proposal_id_def)
  have "\<exists>nodes3 ev lg3 more.
           attack_round sha propA propB targetsA targetsB (2 * int f + 1) (init_nodes NODE_IDS) lg =
             (nodes3, [], ev, lg3 @ (Success, NoQCFormed) # more) \<and>
           (\<forall>(nid, nd) \<in> set nodes3.
              try_form_qc nd propA (2 * int f + 1) = (nd, None) \<and>
              try_form_qc nd propB (2 * int f + 1) = (nd, None))"
  proof (rule attack_round_no_qc)
    show "Proposal_id propA \<noteq> Proposal_id propB"
      by (rule ids)
    show "int (length targetsA) < 2 * int f + 1" "int (length targetsB) < 2 * int f + 1"
      using h by simp_all
    show "\<And>nid nd. (nid, nd) \<in> set (init_nodes NODE_IDS) \<Longrightarrow> received_votes nd = []"
      by (rule init_nodes_no_votes)
  qed
  then obtain nodes3 ev lg3 more where
    ar: "attack_round sha propA propB targetsA targetsB (2 * int f + 1) (init_nodes NODE_IDS) lg =
             (nodes3, [], ev, lg3 @ (Success, NoQCFormed) # more)"
    and none: "\<forall>(nid, nd) \<in> set nodes3.
              try_form_qc nd propA (2 * int f + 1) = (nd, None) \<and>
              try_form_qc nd propB (2 * int f + 1) = (nd, None)"
    by blast
  from none have "\<forall>(nid, nd) \<in> set nodes3.
            snd (try_form_qc nd propA (2 * int f + 1)) = None \<and>
            snd (try_form_qc nd propB (2 * int f + 1)) = None"
    by auto
  with ar show "\<exists>nodes3 ev lg5.
         attack_round sha propA propB targetsA targetsB (2 * int f + 1) (init_nodes NODE_IDS) lg =
           (nodes3, [], ev, lg5) \<and>
         (Success, NoQCFormed) \<in> set lg5 \<and>
         (\<forall>(nid, nd) \<in> set nodes3.
            snd (try_form_qc nd propA (2 * int f + 1)) = None \<and>
            snd (try_form_qc nd propB (2 * int f + 1)) = None)"
    by auto
next
  assume "0 < N \<and> int (N - N div 2) < 2 * int f + 1 \<and> startswith attack_type ''Equivocation''"
  then show "\<exists>out. Run_Simulation sha N f faulty_leader attack_type = Inr out \<and>
         (Success, NoQCFormed) \<in> set (logged out)"
    using run_no_qc [of N f attack_type sha faulty_leader] by blast
qed

theorem no_qc_when_split_below_quorum_witness:
  "(\<exists>nodes3 ev lg5.
      attack_round (\<lambda>s. s)
        \<lparr>block_id = ''X'', parent_id = ''GENESIS'', view = 1, proposer = ''A''\<rparr>
        \<lparr>block_id = ''Y'', parent_id = ''GENESIS'', view = 1, proposer = ''A''\<rparr>
        [''A'', ''B'', ''C''] [''D'', ''E'', ''F'', ''G''] (2 * int 2 + 1)
        (init_nodes (gen_node_ids 7)) [] = (nodes3, [], ev, lg5) \<and>
      (Success, NoQCFormed) \<in> set lg5 \<and>
      (\<forall>(nid, nd) \<in> set nodes3.
         snd (try_form_qc nd \<lparr>block_id = ''X'', parent_id = ''GENESIS'', view = 1, proposer = ''A''\<rparr> (2 * int 2 + 1)) = None \<and>
         snd (try_form_qc nd \<lparr>block_id = ''Y'', parent_id = ''GENESIS'', view = 1, proposer = ''A''\<rparr> (2 * int 2 + 1)) = None)) \<and>
   (\<exists>out. Run_Simulation (\<lambda>s. s) 7 2 ''A'' ''Equivocation (split proposals)'' = Inr out \<and>
      (Success, NoQCFormed) \<in> set (logged out))"
proof -
  have h1: "block_id \<lparr>block_id = ''X'', parent_id = ''GENESIS'', view = 1, proposer = ''A''\<rparr> \<noteq>
            block_id \<lparr>block_id = ''Y'', parent_id = ''GENESIS'', view = 1, proposer = ''A''\<rparr> \<and>
        view \<lparr>block_id = ''X'', parent_id = ''GENESIS'', view = 1, proposer = ''A''\<rparr> =
            view \<lparr>block_id = ''Y'', parent_id = ''GENESIS'', view = 1, proposer = ''A''\<rparr> \<and>
        int (length [''A'', ''B'', ''C'']) < 2 * int 2 + 1 \<and>
        int (length [''D'', ''E'', ''F'', ''G'']) < 2 * int 2 + 1"
    by simp
  have h2: "0 < (7::nat) \<and> int (7 - 7 div 2) < 2 * int 2 + 1 \<and>
        startswith ''Equivocation (split proposals)'' ''Equivocation''"
    by (simp add: startswith_def)
  from no_qc_when_split_below_quorum [where
      propA = "\<lparr>block_id = ''X'', parent_id = ''GENESIS'', view = 1, proposer = ''A''\<rparr>" and
      propB = "\<lparr>block_id = ''Y'', parent_id = ''GENESIS'', view = 1, proposer = ''A''\<rparr>" and
      targetsA = "[''A'', ''B'', ''C'']" and targetsB = "[''D'', ''E'', ''F'', ''G'']" and
      f = 2 and sha = "\<lambda>s. s" and NODE_IDS = "gen_node_ids 7" and lg = "[]" and N = 7 and
      attack_type = "''Equivocation (split proposals)''" and faulty_leader = "''A''"]
    h1 h2
  show ?thesis
    by blast
qed

subsection \<open>The scenario with seven validators\<close>

lemma attack_round_7:
  "attack_round sha
     \<lparr>block_id = ''X'', parent_id = ''GENESIS'', view = 1, proposer = L\<rparr>
     \<lparr>block_id = ''Y'', parent_id = ''GENESIS'', view = 1, proposer = L\<rparr>
     [''A'', ''B'', ''C''] [''D'', ''E'', ''F'', ''G''] 5
     (map (\<lambda>n. (n, NodeState_init n)) ids) lg =
   (map (\<lambda>n. (n, \<lparr>node_id = n,
      received_votes =
      [(''X@v1'', map (\<lambda>v. \<lparr>voter = v, proposal = \<lparr>block_id = ''X'', parent_id = ''GENESIS'', view = 1, proposer = L\<rparr>,
                  signature = sign sha v ''X@v1''\<rparr>) [''A'', ''B'', ''C'']),
       (''Y@v1'', map (\<lambda>v. \<lparr>voter = v, proposal = \<lparr>block_id = ''Y'', parent_id = ''GENESIS'', view = 1, proposer = L\<rparr>,
                  signature = sign sha v ''Y@v1''\<rparr>) [''D'', ''E'', ''F'', ''G''])],
      evidence = {}, committed = [], highest_qc = None\<rparr>)) ids,
    [], {},
    lg @ map (\<lambda>v. (Write, Voted v ''X@v1'')) [''A'', ''B'', ''C''] @
         map (\<lambda>v. (Write, Voted v ''Y@v1'')) [''D'', ''E'', ''F'', ''G''] @
         [(Success, NoQCFormed), (Write, Text ''No equivocation evidence found.'')])"
proof -
  define pX where "pX = \<lparr>block_id = ''X'', parent_id = ''GENESIS'', view = 1, proposer = L\<rparr>"
  define pY where "pY = \<lparr>block_id = ''Y'', parent_id = ''GENESIS'', view = 1, proposer = L\<rparr>"
  define tA where "tA = [''A'', ''B'', ''C'']"
  define tB where "tB = [''D'', ''E'', ''F'', ''G'']"
  define vsA where "vsA = map (\<lambda>v. \<lparr>voter = v, proposal = pX, signature = sign sha v (Proposal_id pX)\<rparr>) tA"
  define vsB where "vsB = map (\<lambda>v. \<lparr>voter = v, proposal = pY, signature = sign sha v (Proposal_id pY)\<rparr>) tB"
  define S1 where "S1 = (\<lambda>n. \<lparr>node_id = n,
      received_votes =
      [(''X@v1'', map (\<lambda>v. \<lparr>voter = v, proposal = \<lparr>block_id = ''X'', parent_id = ''GENESIS'', view = 1, proposer = L\<rparr>,
                  signature = sign sha v ''X@v1''\<rparr>) [''A'', ''B'', ''C'']),
       (''Y@v1'', map (\<lambda>v. \<lparr>voter = v, proposal = \<lparr>block_id = ''Y'', parent_id = ''GENESIS'', view = 1, proposer = L\<rparr>,
                  signature = sign sha v ''Y@v1''\<rparr>) [''D'', ''E'', ''F'', ''G''])],
      evidence = {}, committed = [], highest_qc = None\<rparr>)"
  define nodes2 where "nodes2 = map (\<lambda>n. (n, S1 n)) ids"
  define lg3 where "lg3 = (lg @ map (\<lambda>v. (Write, Voted v (Proposal_id pX))) tA) @
                          map (\<lambda>v. (Write, Voted v (Proposal_id pY))) tB"
  have pids: "Proposal_id pX = ''X@v1''" "Proposal_id pY = ''Y@v1''"
    by (simp_all add: pX_def pY_def Proposal_id_def str_int_def str_nat.simps digit_char_def)
  have node: "foldl record_vote (foldl record_vote (NodeState_init n) vsA) vsB = S1 n" for n
    unfolding vsA_def vsB_def pX_def pY_def tA_def tB_def S1_def
    by (simp add: node_eval)
  have castA: "cast_votes sha pX tA ([], map (\<lambda>n. (n, NodeState_init n)) ids, lg) =
      (vsA, map (\<lambda>n. (n, foldl record_vote (NodeState_init n) vsA)) ids,
       lg @ map (\<lambda>v. (Write, Voted v (Proposal_id pX))) tA)"
    unfolding cast_votes_eq vsA_def by (simp add: o_def)
  have castB: "cast_votes sha pY tB (vsA, map (\<lambda>n. (n, foldl record_vote (NodeState_init n) vsA)) ids,
       lg @ map (\<lambda>v. (Write, Voted v (Proposal_id pX))) tA) = (vsA @ vsB, nodes2, lg3)"
    unfolding cast_votes_eq vsB_def [symmetric] nodes2_def lg3_def
    by (simp add: o_def node)
  have none: "try_form_qc (S1 n) pX 5 = (S1 n, None) \<and> try_form_qc (S1 n) pY 5 = (S1 n, None)" for n
    by (simp add: S1_def pX_def pY_def try_form_qc_def dict_get_def Proposal_id_def str_int_def
        str_nat.simps digit_char_def Let_def)
  have poll: "poll_qcs2 pX pY 5 nodes2 ([], []) = (nodes2, [])"
    using poll_qcs2_none [of nodes2 pX 5 pY "[]" "[]"] none by (auto simp: nodes2_def)
  have ev: "collect_evidence nodes2 = {}"
    by (auto simp: collect_evidence_eq nodes2_def S1_def)
  have "attack_round sha pX pY tA tB 5 (map (\<lambda>n. (n, NodeState_init n)) ids) lg =
        (nodes2, [], {}, lg3 @ [(Success, NoQCFormed), (Write, Text ''No equivocation evidence found.'')])"
    by (simp add: attack_round_def castA castB poll ev Let_def log_kinds)
  then show ?thesis
    unfolding pX_def pY_def tA_def tB_def nodes2_def S1_def lg3_def
    by (simp add: Proposal_id_def str_int_def str_nat.simps digit_char_def)
qed

lemma safe_round_7:
  "safe_round sha [''A'', ''B'', ''C'', ''D'', ''E'', ''F'', ''G''] 5
     (map (\<lambda>n. (n, \<lparr>node_id = n,
        received_votes =
        [(''X@v1'', map (\<lambda>v. \<lparr>voter = v, proposal = \<lparr>block_id = ''X'', parent_id = ''GENESIS'', view = 1, proposer = L\<rparr>,
                    signature = sign sha v ''X@v1''\<rparr>) [''A'', ''B'', ''C'']),
         (''Y@v1'', map (\<lambda>v. \<lparr>voter = v, proposal = \<lparr>block_id = ''Y'', parent_id = ''GENESIS'', view = 1, proposer = L\<rparr>,
                    signature = sign sha v ''Y@v1''\<rparr>) [''D'', ''E'', ''F'', ''G''])],
        evidence = {}, committed = [], highest_qc = None\<rparr>)) [''A'', ''B'', ''C'', ''D'', ''E'', ''F'', ''G''])
     2 ''B'' lg =
   (map (\<lambda>n. (n, \<lparr>node_id = n,
        received_votes =
        [(''X@v1'', map (\<lambda>v. \<lparr>voter = v, proposal = \<lparr>block_id = ''X'', parent_id = ''GENESIS'', view = 1, proposer = L\<rparr>,
                    signature = sign sha v ''X@v1''\<rparr>) [''A'', ''B'', ''C'']),
         (''Y@v1'', map (\<lambda>v. \<lparr>voter = v, proposal = \<lparr>block_id = ''Y'', parent_id = ''GENESIS'', view = 1, proposer = L\<rparr>,
                    signature = sign sha v ''Y@v1''\<rparr>) [''D'', ''E'', ''F'', ''G'']),
         (''Z@v2'', map (\<lambda>v. \<lparr>voter = v, proposal = \<lparr>block_id = ''Z'', parent_id = ''GENESIS'', view = 2, proposer = ''B''\<rparr>,
                    signature = sign sha v ''Z@v2''\<rparr>) [''A'', ''B'', ''C'', ''D'', ''E'', ''F'', ''G''])],
        evidence = {}, committed = [''Z''],
        highest_qc = Some (\<lparr>block_id = ''Z'', parent_id = ''GENESIS'', view = 2, proposer = ''B''\<rparr>,
                           [''A'', ''B'', ''C'', ''D'', ''E''])\<rparr>)) [''A'', ''B'', ''C'', ''D'', ''E'', ''F'', ''G''],
    lg @ [(Write, ViewChange 2 ''B''), (Write, ProposesSafe ''B'' ''Z@v2'')] @
       map (\<lambda>v. (Write, Voted v ''Z@v2'')) [''A'', ''B'', ''C'', ''D'', ''E'', ''F'', ''G''] @
       [(Success, QCFormedCommit ''Z@v2'' ''Z''),
        (Write, Text ''Final committed blocks per node (sample):'')] @
       map (\<lambda>n. (Write, CommittedOf n [''Z''])) [''A'', ''B'', ''C'', ''D'', ''E'', ''F'', ''G''])"
proof -
  define ids where "ids = [''A'', ''B'', ''C'', ''D'', ''E'', ''F'', ''G'']"
  define pZ where "pZ = \<lparr>block_id = ''Z'', parent_id = ''GENESIS'', view = 2, proposer = ''B''\<rparr>"
  define vsZ where "vsZ = map (\<lambda>v. \<lparr>voter = v, proposal = pZ, signature = sign sha v (Proposal_id pZ)\<rparr>) ids"
  define rv1 where "rv1 =
        [(''X@v1'', map (\<lambda>v. \<lparr>voter = v, proposal = \<lparr>block_id = ''X'', parent_id = ''GENESIS'', view = 1, proposer = L\<rparr>,
                    signature = sign sha v ''X@v1''\<rparr>) [''A'', ''B'', ''C'']),
         (''Y@v1'', map (\<lambda>v. \<lparr>voter = v, proposal = \<lparr>block_id = ''Y'', parent_id = ''GENESIS'', view = 1, proposer = L\<rparr>,
                    signature = sign sha v ''Y@v1''\<rparr>) [''D'', ''E'', ''F'', ''G''])]"
  define rv2 where "rv2 = rv1 @
         [(''Z@v2'', map (\<lambda>v. \<lparr>voter = v, proposal = \<lparr>block_id = ''Z'', parent_id = ''GENESIS'', view = 2, proposer = ''B''\<rparr>,
                    signature = sign sha v ''Z@v2''\<rparr>) [''A'', ''B'', ''C'', ''D'', ''E'', ''F'', ''G''])]"
  define qcZ where "qcZ = (pZ, [''A'', ''B'', ''C'', ''D'', ''E''])"
  define S1 where "S1 = (\<lambda>n. \<lparr>node_id = n, received_votes = rv1, evidence = {}, committed = [], highest_qc = None\<rparr>)"
  define S2 where "S2 = (\<lambda>n. \<lparr>node_id = n, received_votes = rv2, evidence = {}, committed = [], highest_qc = None\<rparr>)"
  define S2' where "S2' = (\<lambda>n. \<lparr>node_id = n, received_votes = rv2, evidence = {}, committed = [], highest_qc = Some qcZ\<rparr>)"
  define S3 where "S3 = (\<lambda>n. \<lparr>node_id = n, received_votes = rv2, evidence = {}, committed = [''Z''], highest_qc = Some qcZ\<rparr>)"
  define lg7 where "lg7 = log (log lg (ViewChange 2 ''B'') ''info'') (ProposesSafe ''B'' (Proposal_id pZ)) ''info''"
  have pid: "Proposal_id pZ = ''Z@v2''"
    by (simp add: pZ_def Proposal_id_def str_int_def str_nat.simps digit_char_def)
  have node: "foldl record_vote (S1 n) vsZ = S2 n" for n
    unfolding vsZ_def pZ_def ids_def S1_def S2_def rv1_def rv2_def
    by (simp add: node_eval)
  have castZ: "cast_votes sha pZ ids ([], map (\<lambda>n. (n, S1 n)) ids, lg7) =
      (vsZ, map (\<lambda>n. (n, S2 n)) ids, lg7 @ map (\<lambda>v. (Write, Voted v (Proposal_id pZ))) ids)"
    unfolding cast_votes_eq vsZ_def [symmetric]
    by (simp add: o_def node)
  have tryZ: "try_form_qc (S2 n) pZ 5 = (S2' n, Some qcZ)" for n
    by (simp add: S2_def S2'_def qcZ_def rv2_def rv1_def pZ_def try_form_qc_def dict_get_def
        Proposal_id_def str_int_def str_nat.simps digit_char_def slice_to_def Let_def)
  have pollZ: "poll_qcs pZ 5 (map (\<lambda>n. (n, S2 n)) ids) ([], []) =
      (map (\<lambda>n. (n, S2' n)) ids, [qcZ, qcZ, qcZ, qcZ, qcZ, qcZ, qcZ])"
    by (simp add: poll_qcs_eq o_def tryZ) (simp add: ids_def)
  have commit: "apply_qc_commit (S2' n) qcZ = S3 n" for n
    by (simp add: apply_qc_commit_def S2'_def S3_def qcZ_def pZ_def)
  have commits: "commit_all (map (\<lambda>n. (n, S2' n)) ids) qcZ = map (\<lambda>n. (n, S3 n)) ids"
    by (simp add: commit_all_def o_def commit)
  have summary: "foldl (\<lambda>lg (nid, nd). lg @ [(Write, CommittedOf nid (committed nd))]) lg0
       (map (\<lambda>n. (n, S3 n)) ids) = lg0 @ map (\<lambda>n. (Write, CommittedOf n [''Z''])) ids" for lg0
    by (simp add: case_prod_unfold foldl_snoc_eq o_def S3_def)
  have "safe_round sha ids 5 (map (\<lambda>n. (n, S1 n)) ids) 2 ''B'' lg =
        (map (\<lambda>n. (n, S3 n)) ids,
         ((lg7 @ map (\<lambda>v. (Write, Voted v (Proposal_id pZ))) ids) @
          [(Success, QCFormedCommit (Proposal_id pZ) ''Z''),
           (Write, Text ''Final committed blocks per node (sample):'')]) @
          map (\<lambda>n. (Write, CommittedOf n [''Z''])) ids)"
    unfolding safe_round_def pZ_def [symmetric] Let_def lg7_def [symmetric]
    by (simp add: castZ pollZ commits summary log_kinds) (simp add: pZ_def)
  then show ?thesis
    unfolding ids_def S1_def S3_def rv2_def rv1_def lg7_def qcZ_def pZ_def
    by (simp add: log_kinds Proposal_id_def str_int_def str_nat.simps digit_char_def)
qed

lemma run7:
  "Run_Simulation sha 7 2 faulty_leader ''Equivocation (split proposals)'' =
   Inr \<lparr>final_nodes =
     map (\<lambda>n. (n, \<lparr>node_id = n,
        received_votes =
        [(''X@v1'', map (\<lambda>v. \<lparr>voter = v, proposal = \<lparr>block_id = ''X'', parent_id = ''GENESIS'', view = 1,
                      proposer = (if faulty_leader = ''None'' then ''A'' else faulty_leader)\<rparr>,
                    signature = sign sha v ''X@v1''\<rparr>) [''A'', ''B'', ''C'']),
         (''Y@v1'', map (\<lambda>v. \<lparr>voter = v, proposal = \<lparr>block_id = ''Y'', parent_id = ''GENESIS'', view = 1,
                      proposer = (if faulty_leader = ''None'' then ''A'' else faulty_leader)\<rparr>,
                    signature = sign sha v ''Y@v1''\<rparr>) [''D'', ''E'', ''F'', ''G'']),
         (''Z@v2'', map (\<lambda>v. \<lparr>voter = v, proposal = \<lparr>block_id = ''Z'', parent_id = ''GENESIS'', view = 2, proposer = ''B''\<rparr>,
                    signature = sign sha v ''Z@v2''\<rparr>) [''A'', ''B'', ''C'', ''D'', ''E'', ''F'', ''G''])],
        evidence = {}, committed = [''Z''],
        highest_qc = Some (\<lparr>block_id = ''Z'', parent_id = ''GENESIS'', view = 2, proposer = ''B''\<rparr>,
                           [''A'', ''B'', ''C'', ''D'', ''E''])\<rparr>)) [''A'', ''B'', ''C'', ''D'', ''E'', ''F'', ''G''],
     logged =
       [(Write, LeaderIs 1 (if faulty_leader = ''None'' then ''A'' else faulty_leader)),
        (Write, Sends (if faulty_leader = ''None'' then ''A'' else faulty_leader)
                  ''X@v1'' [''A'', ''B'', ''C''] ''Y@v1'' [''D'', ''E'', ''F'', ''G''])] @
       map (\<lambda>v. (Write, Voted v ''X@v1'')) [''A'', ''B'', ''C''] @
       map (\<lambda>v. (Write, Voted v ''Y@v1'')) [''D'', ''E'', ''F'', ''G''] @
       [(Success, NoQCFormed),
        (Write, Text ''No equivocation evidence found.''),
        (Write, ViewChange 2 ''B''),
        (Write, ProposesSafe ''B'' ''Z@v2'')] @
       map (\<lambda>v. (Write, Voted v ''Z@v2'')) [''A'', ''B'', ''C'', ''D'', ''E'', ''F'', ''G''] @
       [(Success, QCFormedCommit ''Z@v2'' ''Z''),
        (Write, Text ''Final committed blocks per node (sample):'')] @
       map (\<lambda>n. (Write, CommittedOf n [''Z''])) [''A'', ''B'', ''C'', ''D'', ''E'', ''F'', ''G''] @
       [(Write, Text ''Simulation complete.'')]\<rparr>"
proof -
  note ar = attack_round_7 [where ids = "[''A'', ''B'', ''C'', ''D'', ''E'', ''F'', ''G'']", simplified]
  note sr = safe_round_7 [simplified]
  show ?thesis
    by (simp add: Run_Simulation_def equivocation_demo_def gen7 init7 index_mod_def startswith_def
        Let_def ar sr log_kinds Proposal_id_def str_int_def str_nat.simps digit_char_def)
qed

text \<open>
  C8. The end-to-end equivocation scenario with \<open>N = 7\<close> and \<open>f = 2\<close> (quorum 5), for
  any choice of the faulty leader and any digest function: the run returns; the leader
  sends X to three nodes and Y to four; no QC is formed for X or Y; no evidence is found
  and every node's evidence set is empty; after the view change the new leader B proposes
  Z, all seven vote, a QC for Z with five voters is formed at every node (it is every
  node's \<open>highest_qc\<close>), and every node's committed list is exactly \<open>[Z]\<close>.
\<close>

theorem equivocation_scenario_7_2:
  "\<exists>out. Run_Simulation sha 7 2 faulty_leader ''Equivocation (split proposals)'' = Inr out \<and>
     map fst (final_nodes out) = [''A'', ''B'', ''C'', ''D'', ''E'', ''F'', ''G''] \<and>
     map (committed \<circ> snd) (final_nodes out) =
       [[''Z''], [''Z''], [''Z''], [''Z''], [''Z''], [''Z''], [''Z'']] \<and>
     map (evidence \<circ> snd) (final_nodes out) = [{}, {}, {}, {}, {}, {}, {}] \<and>
     set (map (highest_qc \<circ> snd) (final_nodes out)) =
       {Some (\<lparr>block_id = ''Z'', parent_id = ''GENESIS'', view = 2, proposer = ''B''\<rparr>,
              [''A'', ''B'', ''C'', ''D'', ''E''])} \<and>
     logged out =
       [(Write, LeaderIs 1 (if faulty_leader = ''None'' then ''A'' else faulty_leader)),
        (Write, Sends (if faulty_leader = ''None'' then ''A'' else faulty_leader)
                  ''X@v1'' [''A'', ''B'', ''C''] ''Y@v1'' [''D'', ''E'', ''F'', ''G''])] @
       map (\<lambda>v. (Write, Voted v ''X@v1'')) [''A'', ''B'', ''C''] @
       map (\<lambda>v. (Write, Voted v ''Y@v1'')) [''D'', ''E'', ''F'', ''G''] @
       [(Success, NoQCFormed),
        (Write, Text ''No equivocation evidence found.''),
        (Write, ViewChange 2 ''B''),
        (Write, ProposesSafe ''B'' ''Z@v2'')] @
       map (\<lambda>v. (Write, Voted v ''Z@v2'')) [''A'', ''B'', ''C'', ''D'', ''E'', ''F'', ''G''] @
       [(Success, QCFormedCommit ''Z@v2'' ''Z''),
        (Write, Text ''Final committed blocks per node (sample):'')] @
       map (\<lambda>n. (Write, CommittedOf n [''Z''])) [''A'', ''B'', ''C'', ''D'', ''E'', ''F'', ''G''] @
       [(Write, Text ''Simulation complete.'')]"
  by (simp add: run7)

subsection \<open>The attack types without a scenario\<close>

lemma node_name_0: "0 < N \<Longrightarrow> gen_node_ids N ! 0 = ''A''"
  by (simp add: gen_node_ids_def node_name_def)

text \<open>
  C9. With the attack type "Withhold QC" or "Drop messages (selective silence)" and at
  least one validator, the run writes three messages to the log: the leader of view 1,
  the notice that the scenario is not implemented (for "Withhold QC") or is a placeholder
  (for the other types), and "Simulation complete."; no proposal or vote is logged, and
  the nodes are as \<open>NodeState(nid)\<close> created them: no votes, no evidence, nothing
  committed, no highest QC.
\<close>

theorem unimplemented_attacks_are_noops:
  assumes "attack_type = ''Withhold QC'' \<or> attack_type = ''Drop messages (selective silence)''"
    and "0 < N"
  shows "Run_Simulation sha N F faulty_leader attack_type =
     Inr \<lparr>final_nodes = init_nodes (gen_node_ids N),
          logged =
            [(Write, LeaderIs 1 (if faulty_leader = ''None'' then ''A'' else faulty_leader)),
             (Write, Text (if attack_type = ''Withhold QC''
                 then ''Withhold QC scenario not fully implemented in UI version yet. Please try Equivocation demo.''
                 else ''Other attack types are placeholders. Equivocation demo is the interactive part.'')),
             (Write, Text ''Simulation complete.'')]\<rparr> \<and>
     (\<forall>(nid, nd) \<in> set (init_nodes (gen_node_ids N)).
        received_votes nd = [] \<and> evidence nd = {} \<and> committed nd = [] \<and> highest_qc nd = None)"
proof
  have len: "length (gen_node_ids N) \<noteq> 0"
    using assms(2) by (simp add: length_gen_node_ids)
  show "Run_Simulation sha N F faulty_leader attack_type =
     Inr \<lparr>final_nodes = init_nodes (gen_node_ids N),
          logged =
            [(Write, LeaderIs 1 (if faulty_leader = ''None'' then ''A'' else faulty_leader)),
             (Write, Text (if attack_type = ''Withhold QC''
                 then ''Withhold QC scenario not fully implemented in UI version yet. Please try Equivocation demo.''
                 else ''Other attack types are placeholders. Equivocation demo is the interactive part.'')),
             (Write, Text ''Simulation complete.'')]\<rparr>"
    using assms(1) len node_name_0 [OF assms(2)]
    by (auto simp: Run_Simulation_def Let_def index_mod_def startswith_def log_kinds)
  show "\<forall>(nid, nd) \<in> set (init_nodes (gen_node_ids N)).
        received_votes nd = [] \<and> evidence nd = {} \<and> committed nd = [] \<and> highest_qc nd = None"
    by (auto dest!: init_nodes_fresh simp: NodeState_init_def)
qed

theorem unimplemented_attacks_are_noops_witness:
  "Run_Simulation (\<lambda>s. s) 7 2 ''A'' ''Drop messages (selective silence)'' =
     Inr \<lparr>final_nodes = map (\<lambda>n. (n, NodeState_init n)) [''A'', ''B'', ''C'', ''D'', ''E'', ''F'', ''G''],
          logged =
            [(Write, LeaderIs 1 ''A''),
             (Write, Text ''Other attack types are placeholders. Equivocation demo is the interactive part.''),
             (Write, Text ''Simulation complete.'')]\<rparr>"
  using unimplemented_attacks_are_noops [of "''Drop messages (selective silence)''" 7 "\<lambda>s. s" 2 "''A''"]
  by (simp add: gen7 init7)

end
